theory Spec2Isabelle
  imports Main "HOL-Library.List_Lexorder" "HOL-Library.Multiset" "HOL-Library.AList"
begin

section \<open>Python strings\<close>

text \<open>
  A Python \<^verbatim>\<open>str\<close> is a sequence of Unicode code points, and the parsers' patterns name
  code points beyond ASCII (the checkbox glyphs U+2610 and U+2611, the multiplication sign
  U+00D7). A string of the model is therefore a list of code points; \<open>py\<close> reads an ASCII
  literal. The order on strings (\<^verbatim>\<open><\<close>, \<^verbatim>\<open>sort\<close>) is Python's: lexicographic by code
  point, a proper prefix first.
\<close>

type_synonym ustr = "nat list"

definition py :: "string \<Rightarrow> ustr" where
  "py cs = map of_char cs"

definition in_ranges :: "(nat \<times> nat) list \<Rightarrow> nat \<Rightarrow> bool" where
  "in_ranges rs c = list_ex (\<lambda>(lo, hi). lo \<le> c \<and> c \<le> hi) rs"

text \<open>
  The character classes are those of CPython 3.11 (Unicode 14.0): \<^verbatim>\<open>str.isspace\<close> and
  the pattern class \<^verbatim>\<open>\s\<close> agree, as do \<^verbatim>\<open>str.isdecimal\<close> and \<^verbatim>\<open>\d\<close>, and
  \<^verbatim>\<open>\w\<close> is \<^verbatim>\<open>str.isalnum\<close> or the underscore.
\<close>

definition isspace :: "nat \<Rightarrow> bool" where
  "isspace c = in_ranges [
    (9, 13), (28, 32), (133, 133), (160, 160), (5760, 5760), (8192, 8202),
    (8232, 8233), (8239, 8239), (8287, 8287), (12288, 12288)] c"

definition decimal_ranges :: "(nat \<times> nat) list" where
  "decimal_ranges = [
    (48, 57), (1632, 1641), (1776, 1785), (1984, 1993), (2406, 2415), (2534, 2543),
    (2662, 2671), (2790, 2799), (2918, 2927), (3046, 3055), (3174, 3183), (3302, 3311),
    (3430, 3439), (3558, 3567), (3664, 3673), (3792, 3801), (3872, 3881), (4160, 4169),
    (4240, 4249), (6112, 6121), (6160, 6169), (6470, 6479), (6608, 6617), (6784, 6793),
    (6800, 6809), (6992, 7001), (7088, 7097), (7232, 7241), (7248, 7257), (42528, 42537),
    (43216, 43225), (43264, 43273), (43472, 43481), (43504, 43513), (43600, 43609), (44016, 44025),
    (65296, 65305), (66720, 66729), (68912, 68921), (69734, 69743), (69872, 69881), (69942, 69951),
    (70096, 70105), (70384, 70393), (70736, 70745), (70864, 70873), (71248, 71257), (71360, 71369),
    (71472, 71481), (71904, 71913), (72016, 72025), (72784, 72793), (73040, 73049), (73120, 73129),
    (92768, 92777), (92864, 92873), (93008, 93017), (120782, 120831), (123200, 123209), (123632, 123641),
    (125264, 125273), (130032, 130041)]"

definition isdecimal :: "nat \<Rightarrow> bool" where
  "isdecimal c = (if c < 128 then 48 \<le> c \<and> c \<le> 57 else in_ranges decimal_ranges c)"

text \<open>
  Every run of decimal digits in the table starts at a digit zero and counts upwards, so
  the value of a digit is its offset in its run modulo ten (the run at 120782 holds five
  sets of digits).
\<close>

definition digit_value :: "nat \<Rightarrow> nat option" where
  "digit_value c =
     (case filter (\<lambda>(lo, hi). lo \<le> c \<and> c \<le> hi) decimal_ranges of
        [] \<Rightarrow> None
      | (lo, hi) # _ \<Rightarrow> Some ((c - lo) mod 10))"

definition word_ranges_high :: "(nat \<times> nat) list" where
  "word_ranges_high = [
    (170, 170), (178, 179), (181, 181), (185, 186), (188, 190), (192, 214),
    (216, 246), (248, 705), (710, 721), (736, 740), (748, 748), (750, 750),
    (880, 884), (886, 887), (890, 893), (895, 895), (902, 902), (904, 906),
    (908, 908), (910, 929), (931, 1013), (1015, 1153), (1162, 1327), (1329, 1366),
    (1369, 1369), (1376, 1416), (1488, 1514), (1519, 1522), (1568, 1610), (1632, 1641),
    (1646, 1647), (1649, 1747), (1749, 1749), (1765, 1766), (1774, 1788), (1791, 1791),
    (1808, 1808), (1810, 1839), (1869, 1957), (1969, 1969), (1984, 2026), (2036, 2037),
    (2042, 2042), (2048, 2069), (2074, 2074), (2084, 2084), (2088, 2088), (2112, 2136),
    (2144, 2154), (2160, 2183), (2185, 2190), (2208, 2249), (2308, 2361), (2365, 2365),
    (2384, 2384), (2392, 2401), (2406, 2415), (2417, 2432), (2437, 2444), (2447, 2448),
    (2451, 2472), (2474, 2480), (2482, 2482), (2486, 2489), (2493, 2493), (2510, 2510),
    (2524, 2525), (2527, 2529), (2534, 2545), (2548, 2553), (2556, 2556), (2565, 2570),
    (2575, 2576), (2579, 2600), (2602, 2608), (2610, 2611), (2613, 2614), (2616, 2617),
    (2649, 2652), (2654, 2654), (2662, 2671), (2674, 2676), (2693, 2701), (2703, 2705),
    (2707, 2728), (2730, 2736), (2738, 2739), (2741, 2745), (2749, 2749), (2768, 2768),
    (2784, 2785), (2790, 2799), (2809, 2809), (2821, 2828), (2831, 2832), (2835, 2856),
    (2858, 2864), (2866, 2867), (2869, 2873), (2877, 2877), (2908, 2909), (2911, 2913),
    (2918, 2927), (2929, 2935), (2947, 2947), (2949, 2954), (2958, 2960), (2962, 2965),
    (2969, 2970), (2972, 2972), (2974, 2975), (2979, 2980), (2984, 2986), (2990, 3001),
    (3024, 3024), (3046, 3058), (3077, 3084), (3086, 3088), (3090, 3112), (3114, 3129),
    (3133, 3133), (3160, 3162), (3165, 3165), (3168, 3169), (3174, 3183), (3192, 3198),
    (3200, 3200), (3205, 3212), (3214, 3216), (3218, 3240), (3242, 3251), (3253, 3257),
    (3261, 3261), (3293, 3294), (3296, 3297), (3302, 3311), (3313, 3314), (3332, 3340),
    (3342, 3344), (3346, 3386), (3389, 3389), (3406, 3406), (3412, 3414), (3416, 3425),
    (3430, 3448), (3450, 3455), (3461, 3478), (3482, 3505), (3507, 3515), (3517, 3517),
    (3520, 3526), (3558, 3567), (3585, 3632), (3634, 3635), (3648, 3654), (3664, 3673),
    (3713, 3714), (3716, 3716), (3718, 3722), (3724, 3747), (3749, 3749), (3751, 3760),
    (3762, 3763), (3773, 3773), (3776, 3780), (3782, 3782), (3792, 3801), (3804, 3807),
    (3840, 3840), (3872, 3891), (3904, 3911), (3913, 3948), (3976, 3980), (4096, 4138),
    (4159, 4169), (4176, 4181), (4186, 4189), (4193, 4193), (4197, 4198), (4206, 4208),
    (4213, 4225), (4238, 4238), (4240, 4249), (4256, 4293), (4295, 4295), (4301, 4301),
    (4304, 4346), (4348, 4680), (4682, 4685), (4688, 4694), (4696, 4696), (4698, 4701),
    (4704, 4744), (4746, 4749), (4752, 4784), (4786, 4789), (4792, 4798), (4800, 4800),
    (4802, 4805), (4808, 4822), (4824, 4880), (4882, 4885), (4888, 4954), (4969, 4988),
    (4992, 5007), (5024, 5109), (5112, 5117), (5121, 5740), (5743, 5759), (5761, 5786),
    (5792, 5866), (5870, 5880), (5888, 5905), (5919, 5937), (5952, 5969), (5984, 5996),
    (5998, 6000), (6016, 6067), (6103, 6103), (6108, 6108), (6112, 6121), (6128, 6137),
    (6160, 6169), (6176, 6264), (6272, 6276), (6279, 6312), (6314, 6314), (6320, 6389),
    (6400, 6430), (6470, 6509), (6512, 6516), (6528, 6571), (6576, 6601), (6608, 6618),
    (6656, 6678), (6688, 6740), (6784, 6793), (6800, 6809), (6823, 6823), (6917, 6963),
    (6981, 6988), (6992, 7001), (7043, 7072), (7086, 7141), (7168, 7203), (7232, 7241),
    (7245, 7293), (7296, 7304), (7312, 7354), (7357, 7359), (7401, 7404), (7406, 7411),
    (7413, 7414), (7418, 7418), (7424, 7615), (7680, 7957), (7960, 7965), (7968, 8005),
    (8008, 8013), (8016, 8023), (8025, 8025), (8027, 8027), (8029, 8029), (8031, 8061),
    (8064, 8116), (8118, 8124), (8126, 8126), (8130, 8132), (8134, 8140), (8144, 8147),
    (8150, 8155), (8160, 8172), (8178, 8180), (8182, 8188), (8304, 8305), (8308, 8313),
    (8319, 8329), (8336, 8348), (8450, 8450), (8455, 8455), (8458, 8467), (8469, 8469),
    (8473, 8477), (8484, 8484), (8486, 8486), (8488, 8488), (8490, 8493), (8495, 8505),
    (8508, 8511), (8517, 8521), (8526, 8526), (8528, 8585), (9312, 9371), (9450, 9471),
    (10102, 10131), (11264, 11492), (11499, 11502), (11506, 11507), (11517, 11517), (11520, 11557),
    (11559, 11559), (11565, 11565), (11568, 11623), (11631, 11631), (11648, 11670), (11680, 11686),
    (11688, 11694), (11696, 11702), (11704, 11710), (11712, 11718), (11720, 11726), (11728, 11734),
    (11736, 11742), (11823, 11823), (12293, 12295), (12321, 12329), (12337, 12341), (12344, 12348),
    (12353, 12438), (12445, 12447), (12449, 12538), (12540, 12543), (12549, 12591), (12593, 12686),
    (12690, 12693), (12704, 12735), (12784, 12799), (12832, 12841), (12872, 12879), (12881, 12895),
    (12928, 12937), (12977, 12991), (13312, 19903), (19968, 42124), (42192, 42237), (42240, 42508),
    (42512, 42539), (42560, 42606), (42623, 42653), (42656, 42735), (42775, 42783), (42786, 42888),
    (42891, 42954), (42960, 42961), (42963, 42963), (42965, 42969), (42994, 43009), (43011, 43013),
    (43015, 43018), (43020, 43042), (43056, 43061), (43072, 43123), (43138, 43187), (43216, 43225),
    (43250, 43255), (43259, 43259), (43261, 43262), (43264, 43301), (43312, 43334), (43360, 43388),
    (43396, 43442), (43471, 43481), (43488, 43492), (43494, 43518), (43520, 43560), (43584, 43586),
    (43588, 43595), (43600, 43609), (43616, 43638), (43642, 43642), (43646, 43695), (43697, 43697),
    (43701, 43702), (43705, 43709), (43712, 43712), (43714, 43714), (43739, 43741), (43744, 43754),
    (43762, 43764), (43777, 43782), (43785, 43790), (43793, 43798), (43808, 43814), (43816, 43822),
    (43824, 43866), (43868, 43881), (43888, 44002), (44016, 44025), (44032, 55203), (55216, 55238),
    (55243, 55291), (63744, 64109), (64112, 64217), (64256, 64262), (64275, 64279), (64285, 64285),
    (64287, 64296), (64298, 64310), (64312, 64316), (64318, 64318), (64320, 64321), (64323, 64324),
    (64326, 64433), (64467, 64829), (64848, 64911), (64914, 64967), (65008, 65019), (65136, 65140),
    (65142, 65276), (65296, 65305), (65313, 65338), (65345, 65370), (65382, 65470), (65474, 65479),
    (65482, 65487), (65490, 65495), (65498, 65500), (65536, 65547), (65549, 65574), (65576, 65594),
    (65596, 65597), (65599, 65613), (65616, 65629), (65664, 65786), (65799, 65843), (65856, 65912),
    (65930, 65931), (66176, 66204), (66208, 66256), (66273, 66299), (66304, 66339), (66349, 66378),
    (66384, 66421), (66432, 66461), (66464, 66499), (66504, 66511), (66513, 66517), (66560, 66717),
    (66720, 66729), (66736, 66771), (66776, 66811), (66816, 66855), (66864, 66915), (66928, 66938),
    (66940, 66954), (66956, 66962), (66964, 66965), (66967, 66977), (66979, 66993), (66995, 67001),
    (67003, 67004), (67072, 67382), (67392, 67413), (67424, 67431), (67456, 67461), (67463, 67504),
    (67506, 67514), (67584, 67589), (67592, 67592), (67594, 67637), (67639, 67640), (67644, 67644),
    (67647, 67669), (67672, 67702), (67705, 67742), (67751, 67759), (67808, 67826), (67828, 67829),
    (67835, 67867), (67872, 67897), (67968, 68023), (68028, 68047), (68050, 68096), (68112, 68115),
    (68117, 68119), (68121, 68149), (68160, 68168), (68192, 68222), (68224, 68255), (68288, 68295),
    (68297, 68324), (68331, 68335), (68352, 68405), (68416, 68437), (68440, 68466), (68472, 68497),
    (68521, 68527), (68608, 68680), (68736, 68786), (68800, 68850), (68858, 68899), (68912, 68921),
    (69216, 69246), (69248, 69289), (69296, 69297), (69376, 69415), (69424, 69445), (69457, 69460),
    (69488, 69505), (69552, 69579), (69600, 69622), (69635, 69687), (69714, 69743), (69745, 69746),
    (69749, 69749), (69763, 69807), (69840, 69864), (69872, 69881), (69891, 69926), (69942, 69951),
    (69956, 69956), (69959, 69959), (69968, 70002), (70006, 70006), (70019, 70066), (70081, 70084),
    (70096, 70106), (70108, 70108), (70113, 70132), (70144, 70161), (70163, 70187), (70272, 70278),
    (70280, 70280), (70282, 70285), (70287, 70301), (70303, 70312), (70320, 70366), (70384, 70393),
    (70405, 70412), (70415, 70416), (70419, 70440), (70442, 70448), (70450, 70451), (70453, 70457),
    (70461, 70461), (70480, 70480), (70493, 70497), (70656, 70708), (70727, 70730), (70736, 70745),
    (70751, 70753), (70784, 70831), (70852, 70853), (70855, 70855), (70864, 70873), (71040, 71086),
    (71128, 71131), (71168, 71215), (71236, 71236), (71248, 71257), (71296, 71338), (71352, 71352),
    (71360, 71369), (71424, 71450), (71472, 71483), (71488, 71494), (71680, 71723), (71840, 71922),
    (71935, 71942), (71945, 71945), (71948, 71955), (71957, 71958), (71960, 71983), (71999, 71999),
    (72001, 72001), (72016, 72025), (72096, 72103), (72106, 72144), (72161, 72161), (72163, 72163),
    (72192, 72192), (72203, 72242), (72250, 72250), (72272, 72272), (72284, 72329), (72349, 72349),
    (72368, 72440), (72704, 72712), (72714, 72750), (72768, 72768), (72784, 72812), (72818, 72847),
    (72960, 72966), (72968, 72969), (72971, 73008), (73030, 73030), (73040, 73049), (73056, 73061),
    (73063, 73064), (73066, 73097), (73112, 73112), (73120, 73129), (73440, 73458), (73648, 73648),
    (73664, 73684), (73728, 74649), (74752, 74862), (74880, 75075), (77712, 77808), (77824, 78894),
    (82944, 83526), (92160, 92728), (92736, 92766), (92768, 92777), (92784, 92862), (92864, 92873),
    (92880, 92909), (92928, 92975), (92992, 92995), (93008, 93017), (93019, 93025), (93027, 93047),
    (93053, 93071), (93760, 93846), (93952, 94026), (94032, 94032), (94099, 94111), (94176, 94177),
    (94179, 94179), (94208, 100343), (100352, 101589), (101632, 101640), (110576, 110579), (110581, 110587),
    (110589, 110590), (110592, 110882), (110928, 110930), (110948, 110951), (110960, 111355), (113664, 113770),
    (113776, 113788), (113792, 113800), (113808, 113817), (119520, 119539), (119648, 119672), (119808, 119892),
    (119894, 119964), (119966, 119967), (119970, 119970), (119973, 119974), (119977, 119980), (119982, 119993),
    (119995, 119995), (119997, 120003), (120005, 120069), (120071, 120074), (120077, 120084), (120086, 120092),
    (120094, 120121), (120123, 120126), (120128, 120132), (120134, 120134), (120138, 120144), (120146, 120485),
    (120488, 120512), (120514, 120538), (120540, 120570), (120572, 120596), (120598, 120628), (120630, 120654),
    (120656, 120686), (120688, 120712), (120714, 120744), (120746, 120770), (120772, 120779), (120782, 120831),
    (122624, 122654), (123136, 123180), (123191, 123197), (123200, 123209), (123214, 123214), (123536, 123565),
    (123584, 123627), (123632, 123641), (124896, 124902), (124904, 124907), (124909, 124910), (124912, 124926),
    (124928, 125124), (125127, 125135), (125184, 125251), (125259, 125259), (125264, 125273), (126065, 126123),
    (126125, 126127), (126129, 126132), (126209, 126253), (126255, 126269), (126464, 126467), (126469, 126495),
    (126497, 126498), (126500, 126500), (126503, 126503), (126505, 126514), (126516, 126519), (126521, 126521),
    (126523, 126523), (126530, 126530), (126535, 126535), (126537, 126537), (126539, 126539), (126541, 126543),
    (126545, 126546), (126548, 126548), (126551, 126551), (126553, 126553), (126555, 126555), (126557, 126557),
    (126559, 126559), (126561, 126562), (126564, 126564), (126567, 126570), (126572, 126578), (126580, 126583),
    (126585, 126588), (126590, 126590), (126592, 126601), (126603, 126619), (126625, 126627), (126629, 126633),
    (126635, 126651), (127232, 127244), (130032, 130041), (131072, 173791), (173824, 177976), (177984, 178205),
    (178208, 183969), (183984, 191456), (194560, 195101), (196608, 201546)]"

definition isword :: "nat \<Rightarrow> bool" where
  "isword c =
     (if c < 128 then (48 \<le> c \<and> c \<le> 57) \<or> (65 \<le> c \<and> c \<le> 90) \<or> c = 95 \<or> (97 \<le> c \<and> c \<le> 122)
      else in_ranges word_ranges_high c)"

text \<open>
  Under \<^verbatim>\<open>re.IGNORECASE\<close> a literal ASCII letter of a pattern matches its two cases and,
  for \<^verbatim>\<open>i\<close>, \<^verbatim>\<open>s\<close> and \<^verbatim>\<open>k\<close>, the code points U+0130, U+0131, U+017F and U+212A that
  lower to them. \<open>casekey\<close> maps every code point to the representative it is compared by.
\<close>

definition casekey :: "nat \<Rightarrow> nat" where
  "casekey c =
     (if 65 \<le> c \<and> c \<le> 90 then c + 32
      else if c = 304 \<or> c = 305 then 105
      else if c = 383 then 115
      else if c = 8490 then 107
      else c)"

definition lstrip :: "ustr \<Rightarrow> ustr" where
  "lstrip s = dropWhile isspace s"

definition rstrip :: "ustr \<Rightarrow> ustr" where
  "rstrip s = rev (dropWhile isspace (rev s))"

definition strip :: "ustr \<Rightarrow> ustr" where
  "strip s = rstrip (lstrip s)"

text \<open>\<^verbatim>\<open>s.split(sep)\<close> for a separator of one character: never an empty list.\<close>

fun split_loop :: "nat \<Rightarrow> ustr \<Rightarrow> ustr \<Rightarrow> ustr list" where
  "split_loop sep piece [] = [piece]"
| "split_loop sep piece (c # cs) =
     (if c = sep then piece # split_loop sep [] cs
      else split_loop sep (piece @ [c]) cs)"

definition split :: "nat \<Rightarrow> ustr \<Rightarrow> ustr list" where
  "split sep s = split_loop sep [] s"

text \<open>\<^verbatim>\<open>s.replace(old, new)\<close> for \<open>old\<close> of one character.\<close>

definition replace :: "nat \<Rightarrow> ustr \<Rightarrow> ustr \<Rightarrow> ustr" where
  "replace old new s = concat (map (\<lambda>c. if c = old then new else [c]) s)"

text \<open>\<^verbatim>\<open>s[i:j]\<close> for \<open>0 \<le> i\<close> and \<open>0 \<le> j\<close>.\<close>

definition slice :: "ustr \<Rightarrow> nat \<Rightarrow> nat \<Rightarrow> ustr" where
  "slice s i j = take (j - i) (drop i s)"

text \<open>\<^verbatim>\<open>s.zfill(2)\<close> for a string of digits.\<close>

definition zfill2 :: "ustr \<Rightarrow> ustr" where
  "zfill2 s = replicate (2 - length s) 48 @ s"

text \<open>
  \<^verbatim>\<open>int(s)\<close> for a string of decimal digits, which is all that a pattern of the parsers
  passes to it. \<open>None\<close> is its \<^verbatim>\<open>ValueError\<close>: on the empty string, on a character that
  is no decimal digit, and on a string of more than \<^verbatim>\<open>sys.int_max_str_digits\<close> digits
  (4300 unless the interpreter is configured otherwise). Python's \<^verbatim>\<open>int\<close> also reads
  surrounding whitespace, a sign and underscores between digits; no parser passes it such a
  string, and the model gives \<open>None\<close> for them.
\<close>

definition int_max_str_digits :: nat where
  "int_max_str_digits = 4300"

fun int_digits :: "nat \<Rightarrow> ustr \<Rightarrow> nat option" where
  "int_digits acc [] = Some acc"
| "int_digits acc (c # cs) =
     (case digit_value c of None \<Rightarrow> None | Some d \<Rightarrow> int_digits (10 * acc + d) cs)"

definition py_int :: "ustr \<Rightarrow> int option" where
  "py_int s =
     (if s = [] \<or> int_max_str_digits < length s then None
      else map_option int (int_digits 0 s))"

section \<open>Regular expressions\<close>

text \<open>
  The patterns of the parsers use literals, classes, greedy repetition of a single
  character, optional parts, alternatives, groups, the anchors \<^verbatim>\<open>^\<close> and \<^verbatim>\<open>$\<close> (without
  \<^verbatim>\<open>re.MULTILINE\<close>) and the word boundary \<^verbatim>\<open>\b\<close>. \<open>run\<close> is the backtracking matcher:
  from a position and the groups captured so far it lists every way to match, in the
  order in which Python tries them, so that the head of the list is Python's match.
\<close>

datatype atom =
    Chr nat
  | ChrI nat
  | Cls "nat \<Rightarrow> bool"

datatype re =
    Atom atom
  | Star atom
  | Plus atom
  | Rep nat nat atom
  | Opt re
  | Seq re re
  | Alt re re
  | Grp nat re
  | Eps
  | Bol
  | Eol
  | WordB

type_synonym caps = "nat \<Rightarrow> (nat \<times> nat) option"
type_synonym mstate = "nat \<times> caps"

fun atom_ok :: "atom \<Rightarrow> nat \<Rightarrow> bool" where
  "atom_ok (Chr p) c = (c = p)"
| "atom_ok (ChrI p) c = (casekey c = casekey p)"
| "atom_ok (Cls P) c = P c"

text \<open>The number of characters from position \<open>i\<close> on that the atom accepts.\<close>

definition span :: "atom \<Rightarrow> ustr \<Rightarrow> nat \<Rightarrow> nat" where
  "span a s i = length (takeWhile (atom_ok a) (drop i s))"

text \<open>A greedy repetition of between \<open>lo\<close> and \<open>hi\<close> characters: the longest first.\<close>

definition greedy :: "nat \<Rightarrow> nat \<Rightarrow> mstate \<Rightarrow> mstate list" where
  "greedy lo hi st = map (\<lambda>k. (fst st + k, snd st)) (rev [lo ..< Suc hi])"

definition at_boundary :: "ustr \<Rightarrow> nat \<Rightarrow> bool" where
  "at_boundary s i =
     ((0 < i \<and> i \<le> length s \<and> isword (s ! (i - 1))) \<noteq> (i < length s \<and> isword (s ! i)))"

definition at_end :: "ustr \<Rightarrow> nat \<Rightarrow> bool" where
  "at_end s i = (i = length s \<or> (Suc i = length s \<and> s ! i = 10))"

primrec run :: "re \<Rightarrow> ustr \<Rightarrow> mstate \<Rightarrow> mstate list" where
  "run (Atom a) s st =
     (if fst st < length s \<and> atom_ok a (s ! fst st) then [(Suc (fst st), snd st)] else [])"
| "run (Star a) s st = greedy 0 (span a s (fst st)) st"
| "run (Plus a) s st = greedy 1 (span a s (fst st)) st"
| "run (Rep lo hi a) s st = greedy lo (min hi (span a s (fst st))) st"
| "run (Opt r) s st = run r s st @ [st]"
| "run (Seq r1 r2) s st = concat (map (run r2 s) (run r1 s st))"
| "run (Alt r1 r2) s st = run r1 s st @ run r2 s st"
| "run (Grp n r) s st =
     map (\<lambda>st'. (fst st', (snd st')(n \<mapsto> (fst st, fst st')))) (run r s st)"
| "run Eps s st = [st]"
| "run Bol s st = (if fst st = 0 then [st] else [])"
| "run Eol s st = (if at_end s (fst st) then [st] else [])"
| "run WordB s st = (if at_boundary s (fst st) then [st] else [])"

text \<open>
  A match object: where the match starts and ends, and its groups. \<open>group0\<close> is
  \<^verbatim>\<open>m.group(0)\<close>, \<open>m_group s m n\<close> is \<^verbatim>\<open>m.group(n)\<close> of a group that took part in the match.
\<close>

record rmatch =
  m_start :: nat
  m_end :: nat
  m_caps :: caps

definition group0 :: "ustr \<Rightarrow> rmatch \<Rightarrow> ustr" where
  "group0 s m = slice s (m_start m) (m_end m)"

definition m_group :: "ustr \<Rightarrow> rmatch \<Rightarrow> nat \<Rightarrow> ustr" where
  "m_group s m n = (case m_caps m n of None \<Rightarrow> [] | Some (i, j) \<Rightarrow> slice s i j)"

definition match_at :: "re \<Rightarrow> ustr \<Rightarrow> nat \<Rightarrow> rmatch option" where
  "match_at r s i =
     (case run r s (i, Map.empty) of
        [] \<Rightarrow> None
      | st # _ \<Rightarrow> Some \<lparr>m_start = i, m_end = fst st, m_caps = snd st\<rparr>)"

text \<open>\<^verbatim>\<open>re.match\<close> tries position 0 only; \<^verbatim>\<open>re.search\<close> takes the leftmost position.\<close>

definition re_match :: "re \<Rightarrow> ustr \<Rightarrow> rmatch option" where
  "re_match r s = match_at r s 0"

fun first_match :: "re \<Rightarrow> ustr \<Rightarrow> nat list \<Rightarrow> rmatch option" where
  "first_match r s [] = None"
| "first_match r s (i # is) =
     (case match_at r s i of None \<Rightarrow> first_match r s is | Some m \<Rightarrow> Some m)"

definition re_search :: "re \<Rightarrow> ustr \<Rightarrow> rmatch option" where
  "re_search r s = first_match r s [0 ..< Suc (length s)]"

text \<open>
  \<^verbatim>\<open>re.finditer\<close>: the matches from left to right, each search starting where the last
  match ended. No pattern of the parsers matches the empty string; the scan moves on by
  one character after an empty match all the same, so that it ends on every input.
\<close>

function finditer_from :: "re \<Rightarrow> ustr \<Rightarrow> nat \<Rightarrow> rmatch list" where
  "finditer_from r s pos =
     (if length s < pos then []
      else case match_at r s pos of
             None \<Rightarrow> finditer_from r s (Suc pos)
           | Some m \<Rightarrow> m # finditer_from r s (if pos < m_end m then m_end m else Suc pos))"
  by pat_completeness auto
termination
  by (relation "measure (\<lambda>(r, s, pos). Suc (length s) - pos)") auto

declare finditer_from.simps [simp del]

definition finditer :: "re \<Rightarrow> ustr \<Rightarrow> rmatch list" where
  "finditer r s = finditer_from r s 0"

fun seqs :: "re list \<Rightarrow> re" where
  "seqs [] = Eps"
| "seqs [r] = r"
| "seqs (r # rs) = Seq r (seqs rs)"

definition lits :: "string \<Rightarrow> re" where
  "lits cs = seqs (map (\<lambda>c. Atom (Chr (of_char c))) cs)"

definition lits_i :: "string \<Rightarrow> re" where
  "lits_i cs = seqs (map (\<lambda>c. Atom (ChrI (of_char c))) cs)"

section \<open>Notes, errors and the parser interface\<close>

text \<open>
  A note is the dictionary read from one JSON file; \<open>NotDict\<close> is any other JSON value.
  Every field is read with \<^verbatim>\<open>note_data.get(key, default)\<close>, so a field may be absent. A
  label is held as the string \<^verbatim>\<open>str(label)\<close> that the parsers read.
\<close>

text \<open>
  An exception that leaves a parser: its class and its message. The messages of the
  registry are those of the source. A \<^verbatim>\<open>ValueError\<close> of \<^verbatim>\<open>int()\<close> or \<^verbatim>\<open>float()\<close> carries a
  short text that names the conversion, in place of the message of the interpreter, which
  quotes the argument or its number of digits.
\<close>

datatype error = ValueError string | TypeError string | KeyError string

record timestamps =
  ts_created :: "ustr option"
  ts_edited :: "ustr option"

record note_rec =
  n_id :: "ustr option"
  n_title :: "ustr option"
  n_text :: "ustr option"
  n_labels :: "ustr list option"
  n_timestamps :: "timestamps option"

datatype note_data = NotDict | Dict note_rec

definition dict_get :: "'a option \<Rightarrow> 'a \<Rightarrow> 'a" where
  "dict_get v d = (case v of None \<Rightarrow> d | Some x \<Rightarrow> x)"

definition note_created :: "note_rec \<Rightarrow> ustr" where
  "note_created n =
     dict_get (ts_created (dict_get (n_timestamps n) \<lparr>ts_created = None, ts_edited = None\<rparr>)) []"

definition note_edited :: "note_rec \<Rightarrow> ustr" where
  "note_edited n =
     dict_get (ts_edited (dict_get (n_timestamps n) \<lparr>ts_created = None, ts_edited = None\<rparr>)) []"

definition checkbox_glyph :: "nat \<Rightarrow> bool" where
  "checkbox_glyph c = (c = 9744 \<or> c = 9745)"

definition not_newline :: "nat \<Rightarrow> bool" where
  "not_newline c = (c \<noteq> 10)"

section \<open>TimeEntryParser (parsers/time\_entry\_parser.py)\<close>

record time_entry =
  te_timestamp :: ustr
  te_time :: ustr
  te_date :: ustr
  te_activity :: ustr
  te_raw_line :: ustr

record ParseResult =
  pr_note_id :: ustr
  pr_title :: ustr
  pr_date :: ustr
  pr_created :: ustr
  pr_last_updated :: ustr
  pr_time_entries :: "time_entry list"
  pr_raw_text :: ustr
  pr_warnings :: "ustr list"

text \<open>\<^verbatim>\<open>r'^\s*[\u2610\u2611]?\s*(\d{3,4})\s+(.+)$'\<close>\<close>

definition TIME_CODE_PATTERN :: re where
  "TIME_CODE_PATTERN =
     seqs [Bol, Star (Cls isspace), Opt (Atom (Cls checkbox_glyph)), Star (Cls isspace),
           Grp 1 (Rep 3 4 (Cls isdecimal)), Plus (Cls isspace),
           Grp 2 (Plus (Cls not_newline)), Eol]"

definition hours_minutes_ok :: "int option \<Rightarrow> int option \<Rightarrow> error + bool" where
  "hours_minutes_ok h m =
     (case h of
        None \<Rightarrow> Inl (ValueError ''invalid literal for int()'')
      | Some hours \<Rightarrow>
          (case m of
             None \<Rightarrow> Inl (ValueError ''invalid literal for int()'')
           | Some minutes \<Rightarrow> Inr (0 \<le> hours \<and> hours \<le> 23 \<and> 0 \<le> minutes \<and> minutes \<le> 59)))"

definition is_valid_time_code :: "ustr \<Rightarrow> error + bool" where
  "is_valid_time_code time_code =
     (if length time_code = 3 then
        hours_minutes_ok (py_int (take 1 time_code)) (py_int (drop 1 time_code))
      else if length time_code = 4 then
        hours_minutes_ok (py_int (take 2 time_code)) (py_int (drop 2 time_code))
      else Inr False)"

definition parse_time_code :: "ustr \<Rightarrow> ustr" where
  "parse_time_code time_code =
     (if length time_code = 3 then
        zfill2 (take 1 time_code) @ py '':'' @ zfill2 (drop 1 time_code)
      else if length time_code = 4 then
        zfill2 (take 2 time_code) @ py '':'' @ zfill2 (drop 2 time_code)
      else [])"

fun count_time_entries :: "nat \<Rightarrow> ustr list \<Rightarrow> error + nat" where
  "count_time_entries time_entry_count [] = Inr time_entry_count"
| "count_time_entries time_entry_count (line # lines) =
     (case re_match TIME_CODE_PATTERN (strip line) of
        None \<Rightarrow> count_time_entries time_entry_count lines
      | Some m \<Rightarrow>
          (case is_valid_time_code (m_group (strip line) m 1) of
             Inl e \<Rightarrow> Inl e
           | Inr valid \<Rightarrow>
               count_time_entries
                 (if valid then time_entry_count + 1 else time_entry_count) lines))"

definition time_entry_can_parse :: "note_data \<Rightarrow> error + bool" where
  "time_entry_can_parse note_data =
     (case note_data of
        NotDict \<Rightarrow> Inr False
      | Dict n \<Rightarrow>
          (let text = dict_get (n_text n) [] in
           if text = [] then Inr False
           else (case count_time_entries 0 (split 10 (strip text)) of
                   Inl e \<Rightarrow> Inl e
                 | Inr time_entry_count \<Rightarrow> Inr (2 \<le> time_entry_count))))"

text \<open>
  \<^verbatim>\<open>datetime.fromisoformat(...).strftime('%Y-%m-%d')\<close> belongs to the Python library. The
  model takes it as the parameter \<open>isodate\<close>: the formatted date of a timestamp that
  \<^verbatim>\<open>fromisoformat\<close> reads, \<open>None\<close> where it raises \<^verbatim>\<open>ValueError\<close>.
\<close>

definition extract_date_from_timestamp :: "(ustr \<Rightarrow> ustr option) \<Rightarrow> ustr \<Rightarrow> ustr" where
  "extract_date_from_timestamp isodate timestamp =
     (if timestamp = [] then []
      else (case isodate (replace 90 (py ''+00:00'') timestamp) of
              Some d \<Rightarrow> d
            | None \<Rightarrow>
                if 84 \<in> set timestamp then hd (split 84 timestamp)
                else hd (split 32 timestamp)))"

definition make_time_entry :: "ustr \<Rightarrow> ustr \<Rightarrow> ustr \<Rightarrow> ustr \<Rightarrow> time_entry" where
  "make_time_entry base_date time_str activity raw =
     \<lparr>te_timestamp =
        (if base_date \<noteq> [] then base_date @ py ''T'' @ time_str @ py '':00''
         else time_str @ py '':00''),
      te_time = time_str,
      te_date = base_date,
      te_activity = activity,
      te_raw_line = raw\<rparr>"

text \<open>The loop over the lines: it appends to \<open>entries\<close> and to \<open>original_order\<close>.\<close>

fun collect_time_entries ::
  "ustr \<Rightarrow> time_entry list \<Rightarrow> ustr list \<Rightarrow> ustr list \<Rightarrow> error + (time_entry list \<times> ustr list)"
where
  "collect_time_entries base_date entries original_order [] = Inr (entries, original_order)"
| "collect_time_entries base_date entries original_order (line # lines) =
     (case re_match TIME_CODE_PATTERN (strip line) of
        None \<Rightarrow> collect_time_entries base_date entries original_order lines
      | Some m \<Rightarrow>
          (case is_valid_time_code (m_group (strip line) m 1) of
             Inl e \<Rightarrow> Inl e
           | Inr valid \<Rightarrow>
               if valid then
                 (let time_str = parse_time_code (m_group (strip line) m 1);
                      activity = strip (m_group (strip line) m 2)
                  in collect_time_entries base_date
                       (entries @ [make_time_entry base_date time_str activity (strip line)])
                       (original_order @ [time_str]) lines)
               else collect_time_entries base_date entries original_order lines))"

text \<open>
  \<^verbatim>\<open>f"{original_order}"\<close> is \<^verbatim>\<open>repr\<close> of a list of strings. The strings are times made of
  decimal digits and a colon, which \<^verbatim>\<open>repr\<close> writes unchanged between single quotes.
\<close>

fun join :: "ustr \<Rightarrow> ustr list \<Rightarrow> ustr" where
  "join sep [] = []"
| "join sep [x] = x"
| "join sep (x # xs) = x @ sep @ join sep xs"

definition repr_times :: "ustr list \<Rightarrow> ustr" where
  "repr_times ts = py ''['' @ join (py '', '') (map (\<lambda>t. [39] @ t @ [39]) ts) @ py '']''"

definition warning_msg :: "ustr list \<Rightarrow> ustr list \<Rightarrow> ustr" where
  "warning_msg original_order sorted_order =
     py ''Time entries are out of chronological order. '' @
     py ''Original order: '' @ repr_times original_order @
     py '', Sorted order: '' @ repr_times sorted_order"

text \<open>
  \<^verbatim>\<open>entries.sort(key=lambda x: x['time'])\<close> is a stable sort by the time string, and so is
  \<open>sort_key\<close>.
\<close>

definition extract_time_entries ::
  "(ustr \<Rightarrow> ustr option) \<Rightarrow> ustr \<Rightarrow> ustr \<Rightarrow> error + (time_entry list \<times> ustr list)"
where
  "extract_time_entries isodate text created_timestamp =
     (let lines = split 10 (strip text);
          base_date = extract_date_from_timestamp isodate created_timestamp
      in case collect_time_entries base_date [] [] lines of
           Inl e \<Rightarrow> Inl e
         | Inr (entries, original_order) \<Rightarrow>
             (let sorted_entries = sort_key te_time entries;
                  sorted_order = map te_time sorted_entries;
                  parse_warnings =
                    (if original_order \<noteq> sorted_order
                     then [warning_msg original_order sorted_order] else [])
              in Inr (sorted_entries, parse_warnings)))"

definition time_entry_parse :: "(ustr \<Rightarrow> ustr option) \<Rightarrow> note_data \<Rightarrow> error + ParseResult" where
  "time_entry_parse isodate note_data =
     (case note_data of
        NotDict \<Rightarrow> Inl (ValueError ''note_data must be a dictionary'')
      | Dict n \<Rightarrow>
          (let text = dict_get (n_text n) [];
               title = dict_get (n_title n) [];
               created = note_created n;
               edited = note_edited n
           in case extract_time_entries isodate text created of
                Inl e \<Rightarrow> Inl e
              | Inr (entries, parse_warnings) \<Rightarrow>
                  Inr \<lparr>pr_note_id = dict_get (n_id n) [],
                       pr_title = title,
                       pr_date = extract_date_from_timestamp isodate created,
                       pr_created = created,
                       pr_last_updated = edited,
                       pr_time_entries = entries,
                       pr_raw_text = text,
                       pr_warnings = parse_warnings\<rparr>))"

section \<open>HackerNewsParser (parsers/hackernews\_parser.py)\<close>

record HNLink =
  link_url :: ustr
  link_item_id :: ustr

record ParsedNote =
  hn_note_id :: ustr
  hn_title :: ustr
  hn_url :: ustr
  hn_item_id :: ustr
  hn_labels :: "ustr list"
  hn_description :: ustr
  hn_links :: "HNLink list"

text \<open>\<^verbatim>\<open>r'https?://news\.ycombinator\.com/item\?id=(\d+)'\<close> and \<^verbatim>\<open>r'#(\w+)'\<close>\<close>

definition HN_URL_PATTERN :: re where
  "HN_URL_PATTERN =
     seqs [lits ''http'', Opt (Atom (Chr 115)), lits ''://news.ycombinator.com/item?id='',
           Grp 1 (Plus (Cls isdecimal))]"

definition DOWNLOAD_HN_LABEL :: ustr where
  "DOWNLOAD_HN_LABEL = py ''Download-HN''"

definition HASHTAG_PATTERN :: re where
  "HASHTAG_PATTERN = Seq (Atom (Chr 35)) (Grp 1 (Plus (Cls isword)))"

definition hackernews_can_parse :: "note_data \<Rightarrow> error + bool" where
  "hackernews_can_parse note_data =
     (case note_data of
        NotDict \<Rightarrow> Inr False
      | Dict n \<Rightarrow>
          (let text = dict_get (n_text n) [];
               title = dict_get (n_title n) [];
               labels = dict_get (n_labels n) [];
               has_hn_label = list_ex (\<lambda>label. label = DOWNLOAD_HN_LABEL) labels;
               has_hn_url = (re_search HN_URL_PATTERN text \<noteq> None
                             \<or> re_search HN_URL_PATTERN title \<noteq> None)
           in Inr (has_hn_label \<or> has_hn_url)))"

definition extract_hn_urls :: "ustr \<Rightarrow> HNLink list" where
  "extract_hn_urls text =
     map (\<lambda>m. \<lparr>link_url = group0 text m, link_item_id = m_group text m 1\<rparr>) (finditer HN_URL_PATTERN text)"

definition extract_hn_urls_from_title_and_body :: "ustr \<Rightarrow> ustr \<Rightarrow> HNLink list" where
  "extract_hn_urls_from_title_and_body title text =
     (let urls = [];
          urls = urls @ extract_hn_urls title;
          urls = urls @ extract_hn_urls text
      in urls)"

definition extract_hashtag_labels :: "ustr \<Rightarrow> ustr list" where
  "extract_hashtag_labels text = map (\<lambda>m. m_group text m 1) (finditer HASHTAG_PATTERN text)"

definition hackernews_parse :: "note_data \<Rightarrow> error + ParsedNote" where
  "hackernews_parse note_data =
     (case note_data of
        NotDict \<Rightarrow> Inl (ValueError ''note_data must be a dictionary'')
      | Dict n \<Rightarrow>
          (let text = dict_get (n_text n) [];
               title = dict_get (n_title n) [];
               labels = dict_get (n_labels n) [];
               hn_urls = extract_hn_urls_from_title_and_body title text;
               all_labels = labels @ extract_hashtag_labels text
           in Inr \<lparr>hn_note_id = dict_get (n_id n) [],
                   hn_title = title,
                   hn_url = (case hn_urls of [] \<Rightarrow> [] | l # _ \<Rightarrow> link_url l),
                   hn_item_id = (case hn_urls of [] \<Rightarrow> [] | l # _ \<Rightarrow> link_item_id l),
                   hn_labels = all_labels,
                   hn_description = text,
                   hn_links = hn_urls\<rparr>))"

section \<open>GenericNotesParser (parsers/generic\_notes\_parser.py)\<close>

record Checkbox =
  cb_checked :: bool
  cb_text :: ustr

record GenericNote =
  gn_note_id :: ustr
  gn_title :: ustr
  gn_links :: "ustr list"
  gn_checkboxes :: "Checkbox list"
  gn_rest :: "ustr list"

text \<open>
  \<^verbatim>\<open>r'https?://[^\s<>"\')}\]]+|www\.[^\s<>"\')}\]]+'\<close> and
  \<^verbatim>\<open>r'^\s*([\u2610\u2611])\s*(.+)$'\<close>
\<close>

definition url_char :: "nat \<Rightarrow> bool" where
  "url_char c = (\<not> isspace c \<and> c \<notin> set (py ''<>\"'' @ [39] @ py '')}]''))"

definition URL_PATTERN :: re where
  "URL_PATTERN =
     Alt (seqs [lits ''http'', Opt (Atom (Chr 115)), lits ''://'', Plus (Cls url_char)])
         (seqs [lits ''www.'', Plus (Cls url_char)])"

definition CHECKBOX_PATTERN :: re where
  "CHECKBOX_PATTERN =
     seqs [Bol, Star (Cls isspace), Grp 1 (Atom (Cls checkbox_glyph)), Star (Cls isspace),
           Grp 2 (Plus (Cls not_newline)), Eol]"

definition CHECKED_BOX :: ustr where
  "CHECKED_BOX = [9745]"

definition generic_can_parse :: "note_data \<Rightarrow> error + bool" where
  "generic_can_parse note_data = (case note_data of NotDict \<Rightarrow> Inr False | Dict n \<Rightarrow> Inr True)"

text \<open>The loop of \<^verbatim>\<open>_extract_links\<close> over the matches, with its set of links seen.\<close>

fun extract_links_loop :: "ustr list \<Rightarrow> ustr set \<Rightarrow> ustr list \<Rightarrow> ustr list" where
  "extract_links_loop links seen_links [] = links"
| "extract_links_loop links seen_links (link # matches) =
     (if link \<notin> seen_links
      then extract_links_loop (links @ [link]) (insert link seen_links) matches
      else extract_links_loop links seen_links matches)"

definition extract_links :: "ustr \<Rightarrow> ustr list" where
  "extract_links text =
     extract_links_loop [] {} (map (group0 text) (finditer URL_PATTERN text))"

fun generic_lines_loop ::
  "Checkbox list \<Rightarrow> ustr list \<Rightarrow> ustr list \<Rightarrow> Checkbox list \<times> ustr list"
where
  "generic_lines_loop cbs rst [] = (cbs, rst)"
| "generic_lines_loop cbs rst (line # lines) =
     (let stripped_line = strip line in
      if stripped_line = [] then generic_lines_loop cbs rst lines
      else (case re_match CHECKBOX_PATTERN stripped_line of
              Some m \<Rightarrow>
                generic_lines_loop
                  (cbs @ [\<lparr>cb_checked = (m_group stripped_line m 1 = CHECKED_BOX),
                            cb_text = strip (m_group stripped_line m 2)\<rparr>]) rst lines
            | None \<Rightarrow> generic_lines_loop cbs (rst @ [stripped_line]) lines))"

definition generic_parse :: "note_data \<Rightarrow> error + GenericNote" where
  "generic_parse note_data =
     (case note_data of
        NotDict \<Rightarrow> Inl (ValueError ''note_data must be a dictionary'')
      | Dict n \<Rightarrow>
          (let text = dict_get (n_text n) [];
               title = dict_get (n_title n) [];
               (cbs, rst) = generic_lines_loop [] [] (split 10 text)
           in Inr \<lparr>gn_note_id = dict_get (n_id n) [],
                   gn_title = title,
                   gn_links = extract_links text,
                   gn_checkboxes = cbs,
                   gn_rest = rst\<rparr>))"

section \<open>TrainingParser (parsers/training\_parser.py)\<close>

text \<open>
  \<open>sd_weight\<close> holds the decimal literal that \<^verbatim>\<open>float()\<close> reads; its rounding to a binary
  floating-point number is not modelled.
\<close>

record SetData =
  sd_set :: int
  sd_reps :: int
  sd_weight :: ustr

record ExerciseData =
  exercise_name :: ustr
  ex_abbreviation :: ustr
  ex_sets :: "SetData list"
  total_sets :: nat
  ex_raw_line :: ustr

record CompletedActivity =
  ca_timestamp :: ustr
  ca_activity :: ustr

record WorkoutData =
  wd_note_id :: ustr
  wd_title :: ustr
  workout_date :: ustr
  wd_last_updated :: ustr
  wd_exercises :: "ExerciseData list"
  completed_activities :: "CompletedActivity list"
  wd_raw_text :: ustr

text \<open>The table is a Python dictionary literal: its keys come in the order written.\<close>

definition EXERCISE_PATTERNS :: "(string \<times> string) list" where
  "EXERCISE_PATTERNS =
     [(''Bp'', ''Bench Press''),
      (''Mr'', ''Machine Row''),
      (''Ms'', ''Machine Squat''),
      (''Sq'', ''Squat''),
      (''Dl'', ''Deadlift''),
      (''Pu'', ''Pull-up''),
      (''Dip'', ''Dip''),
      (''Row'', ''Row''),
      (''Curl'', ''Curl''),
      (''Press'', ''Press'')]"

text \<open>\<^verbatim>\<open>rf'\b{abbr}\b'\<close> under \<^verbatim>\<open>re.IGNORECASE\<close>\<close>

definition abbr_pattern :: "string \<Rightarrow> re" where
  "abbr_pattern abbr = seqs [WordB, lits_i abbr, WordB]"

text \<open>\<^verbatim>\<open>r'(\d+)\s*[x\u00d7]\s*(\d+)\s*[x\u00d7]\s*(\d+(?:\.\d+)?)'\<close>\<close>

definition times_sign :: "nat \<Rightarrow> bool" where
  "times_sign c = (c = 120 \<or> c = 215)"

definition SET_REP_WEIGHT_PATTERN :: re where
  "SET_REP_WEIGHT_PATTERN =
     seqs [Grp 1 (Plus (Cls isdecimal)), Star (Cls isspace), Atom (Cls times_sign),
           Star (Cls isspace), Grp 2 (Plus (Cls isdecimal)), Star (Cls isspace),
           Atom (Cls times_sign), Star (Cls isspace),
           Grp 3 (Seq (Plus (Cls isdecimal))
                      (Opt (Seq (Atom (Chr 46)) (Plus (Cls isdecimal)))))]"

definition normalize_checkboxes :: "ustr \<Rightarrow> ustr" where
  "normalize_checkboxes text =
     (let text = replace 9744 (py ''- [ ] '') text;
          text = replace 9745 (py ''- [x] '') text
      in text)"

definition training_can_parse :: "note_data \<Rightarrow> error + bool" where
  "training_can_parse note_data =
     (case note_data of
        NotDict \<Rightarrow> Inr False
      | Dict n \<Rightarrow>
          (let text = dict_get (n_text n) [] in
           if text = [] then Inr False
           else (let text = normalize_checkboxes text;
                     has_exercise =
                       list_ex (\<lambda>abbr. re_search (abbr_pattern abbr) text \<noteq> None)
                         (map fst EXERCISE_PATTERNS);
                     has_set_format = (re_search SET_REP_WEIGHT_PATTERN text \<noteq> None)
                 in Inr (has_exercise \<and> has_set_format))))"

text \<open>
  \<^verbatim>\<open>float(s)\<close> for a decimal literal \<open>s\<close>: digits, or digits, a point and digits. No other
  string reaches it; the model gives \<open>None\<close> there.
\<close>

definition decimal_literal :: "ustr \<Rightarrow> bool" where
  "decimal_literal s =
     (let whole = takeWhile (\<lambda>c. c \<noteq> 46) s; frac = dropWhile (\<lambda>c. c \<noteq> 46) s
      in whole \<noteq> [] \<and> list_all isdecimal whole
         \<and> (frac = [] \<or> (tl frac \<noteq> [] \<and> list_all isdecimal (tl frac))))"

definition py_float :: "ustr \<Rightarrow> ustr option" where
  "py_float s = (if decimal_literal s then Some s else None)"

definition set_data_of :: "ustr \<Rightarrow> rmatch \<Rightarrow> error + SetData" where
  "set_data_of line m =
     (case py_int (m_group line m 1) of
        None \<Rightarrow> Inl (ValueError ''invalid literal for int()'')
      | Some set_num \<Rightarrow>
          (case py_int (m_group line m 2) of
             None \<Rightarrow> Inl (ValueError ''invalid literal for int()'')
           | Some reps \<Rightarrow>
               (case py_float (m_group line m 3) of
                  None \<Rightarrow> Inl (ValueError ''could not convert string to float'')
                | Some weight \<Rightarrow>
                    Inr \<lparr>sd_set = set_num, sd_reps = reps, sd_weight = weight\<rparr>)))"

fun collect_sets :: "ustr \<Rightarrow> SetData list \<Rightarrow> rmatch list \<Rightarrow> error + SetData list" where
  "collect_sets line sets [] = Inr sets"
| "collect_sets line sets (m # matches) =
     (case set_data_of line m of
        Inl e \<Rightarrow> Inl e
      | Inr sd \<Rightarrow> collect_sets line (sets @ [sd]) matches)"

definition extract_sets :: "ustr \<Rightarrow> error + SetData list" where
  "extract_sets line = collect_sets line [] (finditer SET_REP_WEIGHT_PATTERN line)"

text \<open>
  The state of the loop of \<^verbatim>\<open>_extract_exercises\<close>. \<open>exercises_dict\<close> is a Python
  dictionary: an association list in the order in which the keys were first stored.
\<close>

record scan_state =
  exercises_dict :: "(string \<times> ExerciseData) list"
  current_exercise :: "string option"
  previous_indent :: nat

text \<open>The inner \<^verbatim>\<open>for abbr, full_name in self.EXERCISE_PATTERNS.items()\<close> with its \<^verbatim>\<open>break\<close>.\<close>

fun first_abbr :: "(string \<times> string) list \<Rightarrow> ustr \<Rightarrow> string option" where
  "first_abbr [] line = None"
| "first_abbr ((abbr, full_name) # table) line =
     (if re_search (abbr_pattern abbr) line \<noteq> None then Some abbr
      else first_abbr table line)"

definition add_sets ::
  "(string \<times> ExerciseData) list \<Rightarrow> string \<Rightarrow> SetData list \<Rightarrow> ustr
     \<Rightarrow> error + (string \<times> ExerciseData) list"
where
  "add_sets dict abbr_to_use sets line =
     (case map_of EXERCISE_PATTERNS abbr_to_use of
        None \<Rightarrow> Inl (KeyError abbr_to_use)
      | Some full_name \<Rightarrow>
          (case map_of dict abbr_to_use of
             Some e \<Rightarrow>
               Inr (AList.update abbr_to_use
                      (e\<lparr>ex_sets := ex_sets e @ sets,
                         total_sets := length (ex_sets e @ sets),
                         ex_raw_line := ex_raw_line e @ [10] @ strip line\<rparr>) dict)
           | None \<Rightarrow>
               Inr (AList.update abbr_to_use
                      \<lparr>exercise_name = py full_name,
                       ex_abbreviation = py abbr_to_use,
                       ex_sets = sets,
                       total_sets = length sets,
                       ex_raw_line = strip line\<rparr> dict)))"

definition exercise_step :: "scan_state \<Rightarrow> ustr \<Rightarrow> error + scan_state" where
  "exercise_step st line =
     (let current_indent = length line - length (lstrip line);
          matched_abbr = first_abbr EXERCISE_PATTERNS line;
          st1 = (case matched_abbr of
                   None \<Rightarrow> st
                 | Some abbr \<Rightarrow>
                     st\<lparr>current_exercise := Some abbr, previous_indent := current_indent\<rparr>)
      in case extract_sets line of
           Inl e \<Rightarrow> Inl e
         | Inr sets \<Rightarrow>
             (let abbr_to_use =
                    (case matched_abbr of Some abbr \<Rightarrow> Some abbr | None \<Rightarrow> current_exercise st1);
                  stored =
                    (if sets \<noteq> [] then
                       (case abbr_to_use of
                          None \<Rightarrow> Inr (exercises_dict st1)
                        | Some abbr \<Rightarrow> add_sets (exercises_dict st1) abbr sets line)
                     else Inr (exercises_dict st1))
              in case stored of
                   Inl e \<Rightarrow> Inl e
                 | Inr dict \<Rightarrow>
                     (let st2 = st1\<lparr>exercises_dict := dict\<rparr> in
                      if current_indent \<le> previous_indent st2 \<and> matched_abbr = None \<and> sets = []
                      then Inr (st2\<lparr>current_exercise := None\<rparr>)
                      else Inr st2)))"

fun scan_lines :: "scan_state \<Rightarrow> ustr list \<Rightarrow> error + scan_state" where
  "scan_lines st [] = Inr st"
| "scan_lines st (line # lines) =
     (case exercise_step st line of
        Inl e \<Rightarrow> Inl e
      | Inr st' \<Rightarrow> scan_lines st' lines)"

definition initial_state :: scan_state where
  "initial_state = \<lparr>exercises_dict = [], current_exercise = None, previous_indent = 0\<rparr>"

definition extract_exercises :: "ustr \<Rightarrow> error + ExerciseData list" where
  "extract_exercises text =
     (case scan_lines initial_state (split 10 text) of
        Inl e \<Rightarrow> Inl e
      | Inr st \<Rightarrow> Inr (map snd (exercises_dict st)))"

text \<open>\<^verbatim>\<open>r'(\d{4}-\d{2}-\d{2}[T\s]\d{2}:\d{2}:\d{2})'\<close>\<close>

definition t_or_space :: "nat \<Rightarrow> bool" where
  "t_or_space c = (c = 84 \<or> isspace c)"

definition timestamp_pattern :: re where
  "timestamp_pattern =
     Grp 1 (seqs [Rep 4 4 (Cls isdecimal), Atom (Chr 45), Rep 2 2 (Cls isdecimal), Atom (Chr 45),
                  Rep 2 2 (Cls isdecimal), Atom (Cls t_or_space),
                  Rep 2 2 (Cls isdecimal), Atom (Chr 58), Rep 2 2 (Cls isdecimal), Atom (Chr 58),
                  Rep 2 2 (Cls isdecimal)])"

text \<open>\<^verbatim>\<open>s.rfind(c, 0, e)\<close> and \<^verbatim>\<open>s.find(c, b)\<close>; \<open>None\<close> is Python's \<^verbatim>\<open>-1\<close>.\<close>

definition rfind :: "nat \<Rightarrow> ustr \<Rightarrow> nat \<Rightarrow> nat option" where
  "rfind c s e =
     (case filter (\<lambda>i. s ! i = c) (rev [0 ..< min e (length s)]) of
        [] \<Rightarrow> None
      | i # _ \<Rightarrow> Some i)"

definition find_from :: "nat \<Rightarrow> ustr \<Rightarrow> nat \<Rightarrow> nat option" where
  "find_from c s b =
     (case filter (\<lambda>i. s ! i = c) [b ..< length s] of
        [] \<Rightarrow> None
      | i # _ \<Rightarrow> Some i)"

definition activity_line :: "ustr \<Rightarrow> rmatch \<Rightarrow> ustr" where
  "activity_line text m =
     (let line_start = (case rfind 10 text (m_start m) of None \<Rightarrow> 0 | Some i \<Rightarrow> i);
          line_end = (case find_from 10 text (m_end m) of None \<Rightarrow> length text | Some j \<Rightarrow> j)
      in strip (slice text line_start line_end))"

fun completed_loop ::
  "ustr \<Rightarrow> ustr \<Rightarrow> CompletedActivity list \<Rightarrow> rmatch list \<Rightarrow> CompletedActivity list"
where
  "completed_loop text created_timestamp activities [] = activities"
| "completed_loop text created_timestamp activities (m # matches) =
     (let timestamp_str = m_group text m 1 in
      if timestamp_str \<noteq> replace 32 (py ''T'') (hd (split 46 created_timestamp))
      then completed_loop text created_timestamp
             (activities @ [\<lparr>ca_timestamp = timestamp_str, ca_activity = activity_line text m\<rparr>])
             matches
      else completed_loop text created_timestamp activities matches)"

definition extract_completed_activities :: "ustr \<Rightarrow> ustr \<Rightarrow> CompletedActivity list" where
  "extract_completed_activities text created_timestamp =
     (let activities = completed_loop text created_timestamp [] (finditer timestamp_pattern text)
      in if activities = [] \<and> created_timestamp \<noteq> []
         then [\<lparr>ca_timestamp = created_timestamp, ca_activity = py ''Workout logged''\<rparr>]
         else activities)"

definition training_parse :: "note_data \<Rightarrow> error + WorkoutData" where
  "training_parse note_data =
     (case note_data of
        NotDict \<Rightarrow> Inl (ValueError ''note_data must be a dictionary'')
      | Dict n \<Rightarrow>
          (let text = normalize_checkboxes (dict_get (n_text n) []);
               title = dict_get (n_title n) [];
               created = note_created n;
               edited = note_edited n
           in case extract_exercises text of
                Inl e \<Rightarrow> Inl e
              | Inr exercises \<Rightarrow>
                  Inr \<lparr>wd_note_id = dict_get (n_id n) [],
                       wd_title = title,
                       workout_date = created,
                       wd_last_updated = edited,
                       wd_exercises = exercises,
                       completed_activities = extract_completed_activities text created,
                       wd_raw_text = text\<rparr>))"

section \<open>ParserRegistry (parsers/base.py) and the batch driver (parse\_notes.py)\<close>

text \<open>
  A parser class is the record of its three methods; the registry instantiates it anew at
  every use, and no parser has state. \<open>get_schema\<close> reads a JSON file that the parser names;
  the model holds the name.
\<close>

record ('n, 'r) note_parser =
  can_parse :: "'n \<Rightarrow> error + bool"
  parse :: "'n \<Rightarrow> error + 'r"
  get_schema :: string

definition register :: "('n, 'r) note_parser list \<Rightarrow> ('n, 'r) note_parser \<Rightarrow> ('n, 'r) note_parser list" where
  "register parsers parser_class = parsers @ [parser_class]"

fun get_parser :: "('n, 'r) note_parser list \<Rightarrow> 'n \<Rightarrow> error + ('n, 'r) note_parser" where
  "get_parser [] note_data = Inl (ValueError ''No suitable parser found for the given note data'')"
| "get_parser (parser # parsers) note_data =
     (case can_parse parser note_data of
        Inl e \<Rightarrow> Inl e
      | Inr accepted \<Rightarrow> if accepted then Inr parser else get_parser parsers note_data)"

text \<open>
  \<^verbatim>\<open>jsonschema.validate\<close> is outside the repository. The model takes it as the parameter
  \<open>validate\<close>, applied to the parsed data (in its dictionary form \<^verbatim>\<open>asdict(parsed_data)\<close>
  when it is a dataclass instance) and to the schema: \<open>None\<close> when the data conforms,
  \<open>Some message\<close> for a \<^verbatim>\<open>ValidationError\<close> with that message.
\<close>

definition registry_parse ::
  "('r \<Rightarrow> string \<Rightarrow> string option) \<Rightarrow> ('n, 'r) note_parser list \<Rightarrow> 'n \<Rightarrow> error + 'r"
where
  "registry_parse validate parsers note_data =
     (case get_parser parsers note_data of
        Inl e \<Rightarrow> Inl e
      | Inr parser \<Rightarrow>
          (case parse parser note_data of
             Inl e \<Rightarrow> Inl e
           | Inr parsed_data \<Rightarrow>
               (case validate parsed_data (get_schema parser) of
                  Some message \<Rightarrow>
                    Inl (ValueError (''Parsed data does not conform to schema: '' @ message))
                | None \<Rightarrow> Inr parsed_data)))"

datatype parsed =
    HackerNews ParsedNote
  | TimeEntries ParseResult
  | Workout WorkoutData
  | Generic GenericNote

definition HackerNewsParser :: "(note_data, parsed) note_parser" where
  "HackerNewsParser =
     \<lparr>can_parse = hackernews_can_parse,
      parse = (\<lambda>note_data. map_sum id HackerNews (hackernews_parse note_data)),
      get_schema = ''schemas/hackernews.schema.json''\<rparr>"

definition TimeEntryParser :: "(ustr \<Rightarrow> ustr option) \<Rightarrow> (note_data, parsed) note_parser" where
  "TimeEntryParser isodate =
     \<lparr>can_parse = time_entry_can_parse,
      parse = (\<lambda>note_data. map_sum id TimeEntries (time_entry_parse isodate note_data)),
      get_schema = ''schemas/time_entry.schema.json''\<rparr>"

definition TrainingParser :: "(note_data, parsed) note_parser" where
  "TrainingParser =
     \<lparr>can_parse = training_can_parse,
      parse = (\<lambda>note_data. map_sum id Workout (training_parse note_data)),
      get_schema = ''schemas/training.schema.json''\<rparr>"

definition GenericNotesParser :: "(note_data, parsed) note_parser" where
  "GenericNotesParser =
     \<lparr>can_parse = generic_can_parse,
      parse = (\<lambda>note_data. map_sum id Generic (generic_parse note_data)),
      get_schema = ''schemas/generic_notes.schema.json''\<rparr>"

text \<open>The registry that \<^verbatim>\<open>main\<close> builds before it reads any file.\<close>

definition main_registry :: "(ustr \<Rightarrow> ustr option) \<Rightarrow> (note_data, parsed) note_parser list" where
  "main_registry isodate =
     (let registry = [];
          registry = register registry HackerNewsParser;
          registry = register registry (TimeEntryParser isodate);
          registry = register registry TrainingParser
      in registry)"

section \<open>Sample notes\<close>

text \<open>A library that reads no timestamp, and a note of one training line.\<close>

definition no_isodate :: "ustr \<Rightarrow> ustr option" where
  "no_isodate timestamp = None"

definition bench_note :: note_data where
  "bench_note =
     Dict \<lparr>n_id = Some (py ''n1''), n_title = Some (py ''Gym''), n_text = Some (py ''Bp 3x8x100''),
           n_labels = Some [], n_timestamps = None\<rparr>"

text \<open>Two validators: one that accepts every record, one that rejects every record.\<close>

definition accept_all :: "parsed \<Rightarrow> string \<Rightarrow> string option" where
  "accept_all parsed_data schema = None"

definition reject_all :: "parsed \<Rightarrow> string \<Rightarrow> string option" where
  "reject_all parsed_data schema = Some ''3 is not of type string''"

text \<open>What \<^verbatim>\<open>TrainingParser.parse\<close> makes of the note of one training line.\<close>

definition bench_workout :: WorkoutData where
  "bench_workout =
     \<lparr>wd_note_id = py ''n1'', wd_title = py ''Gym'', workout_date = [], wd_last_updated = [],
      wd_exercises =
        [\<lparr>exercise_name = py ''Bench Press'', ex_abbreviation = py ''Bp'',
          ex_sets = [\<lparr>sd_set = 3, sd_reps = 8, sd_weight = py ''100''\<rparr>],
          total_sets = 1, ex_raw_line = py ''Bp 3x8x100''\<rparr>],
      completed_activities = [], wd_raw_text = py ''Bp 3x8x100''\<rparr>"

text \<open>A dictionary whose text is the empty string and that has no other key.\<close>

definition empty_note :: note_data where
  "empty_note =
     Dict \<lparr>n_id = None, n_title = None, n_text = Some [], n_labels = None, n_timestamps = None\<rparr>"

text \<open>
  The claim about links, in the spec's words: a list without its repetitions, each element
  kept where it first occurs.
\<close>

fun first_occurrences :: "'a list \<Rightarrow> 'a list" where
  "first_occurrences [] = []"
| "first_occurrences (x # xs) = x # first_occurrences (filter (\<lambda>y. y \<noteq> x) xs)"

text \<open>A note with one Hacker News link in its title and another in its text.\<close>

definition hn_note :: note_data where
  "hn_note =
     Dict \<lparr>n_id = None,
           n_title = Some (py ''https://news.ycombinator.com/item?id=11111''),
           n_text = Some (py ''https://news.ycombinator.com/item?id=22222''),
           n_labels = None, n_timestamps = None\<rparr>"

text \<open>The strings that \<^verbatim>\<open>re.finditer(self.URL_PATTERN, text)\<close> matches, in order.\<close>

definition url_matches :: "ustr \<Rightarrow> ustr list" where
  "url_matches text = map (group0 text) (finditer URL_PATTERN text)"

text \<open>A note whose text names one address twice.\<close>

definition links_note :: note_data where
  "links_note =
     Dict \<lparr>n_id = None, n_title = None,
           n_text = Some (py ''https://a.com and https://a.com again''),
           n_labels = None, n_timestamps = None\<rparr>"

definition hn_link_11111 :: HNLink where
  "hn_link_11111 = \<lparr>link_url = py ''https://news.ycombinator.com/item?id=11111'', link_item_id = py ''11111''\<rparr>"

definition hn_link_22222 :: HNLink where
  "hn_link_22222 = \<lparr>link_url = py ''https://news.ycombinator.com/item?id=22222'', link_item_id = py ''22222''\<rparr>"

text \<open>The value of a string of decimal digits, read from the left.\<close>

definition decimal_value :: "ustr \<Rightarrow> nat" where
  "decimal_value ds =
     foldl (\<lambda>acc c. 10 * acc + (case digit_value c of None \<Rightarrow> 0 | Some d \<Rightarrow> d)) 0 ds"

text \<open>
  The spec's validity of a time code: three or four decimal digits, of which the last two
  are the minutes and the one or two before them the hours, with \<open>0 \<le> hours \<le> 23\<close> and
  \<open>0 \<le> minutes \<le> 59\<close>.
\<close>

definition spec_valid_code :: "ustr \<Rightarrow> bool" where
  "spec_valid_code code =
     (list_all isdecimal code \<and> (length code = 3 \<or> length code = 4)
      \<and> (let hours = int (decimal_value (take (length code - 2) code));
              minutes = int (decimal_value (drop (length code - 2) code))
          in 0 \<le> hours \<and> hours \<le> 23 \<and> 0 \<le> minutes \<and> minutes \<le> 59))"

text \<open>
  The spec's matching line: the time-code pattern matches the line, trimmed as the parser
  trims it, and the code it captures is valid.
\<close>

definition matching_line :: "ustr \<Rightarrow> bool" where
  "matching_line line =
     (case re_match TIME_CODE_PATTERN (strip line) of
        None \<Rightarrow> False
      | Some m \<Rightarrow> spec_valid_code (m_group (strip line) m 1))"

text \<open>The lines that are not blank, trimmed.\<close>

definition trimmed_lines :: "ustr list \<Rightarrow> ustr list" where
  "trimmed_lines ls = filter (\<lambda>l. l \<noteq> []) (map strip ls)"

text \<open>The text of the spec's example of time entries, and a text with one invalid code.\<close>

definition day_text :: ustr where
  "day_text = py ''1420 Lunch'' @ [10] @ py ''0637 Woke up'' @ [10] @ py ''1053 Coffee''"

definition day_note :: note_rec where
  "day_note =
     \<lparr>n_id = None, n_title = None, n_text = Some day_text, n_labels = None,
      n_timestamps = Some \<lparr>ts_created = Some (py ''2024-01-15T06:37:00Z''), ts_edited = None\<rparr>\<rparr>"

definition late_text :: ustr where
  "late_text = py ''1420 Lunch'' @ [10] @ py ''2575 Nothing'' @ [10] @ py ''12 Noon''"

definition late_note :: note_rec where
  "late_note =
     \<lparr>n_id = None, n_title = None, n_text = Some late_text, n_labels = None,
      n_timestamps = None\<rparr>"








text \<open>
  The set-triples of a line: one record for every match of the set pattern, in the order
  of the matches.
\<close>

definition set_of_match :: "ustr \<Rightarrow> rmatch \<Rightarrow> SetData" where
  "set_of_match line m =
     \<lparr>sd_set = int (decimal_value (m_group line m 1)),
      sd_reps = int (decimal_value (m_group line m 2)),
      sd_weight = m_group line m 3\<rparr>"

definition line_sets :: "ustr \<Rightarrow> SetData list" where
  "line_sets line = map (set_of_match line) (finditer SET_REP_WEIGHT_PATTERN line)"

text \<open>
  \<^verbatim>\<open>int()\<close> reads every set count and every repetition count of the line: none of them
  has more digits than \<^verbatim>\<open>sys.int_max_str_digits\<close>.
\<close>

definition sets_readable :: "ustr \<Rightarrow> bool" where
  "sets_readable line =
     list_all (\<lambda>m. length (m_group line m 1) \<le> int_max_str_digits
                  \<and> length (m_group line m 2) \<le> int_max_str_digits)
       (finditer SET_REP_WEIGHT_PATTERN line)"

text \<open>The number of leading whitespace characters of a line.\<close>

definition leading_whitespace :: "ustr \<Rightarrow> nat" where
  "leading_whitespace line = length (takeWhile isspace line)"

text \<open>
  The amended claim about \<open>previous_indent\<close>: the leading whitespace of the most recent line
  on which an abbreviation of the table matched, and 0 while no line has matched.
\<close>

definition last_match_indent :: "ustr list \<Rightarrow> nat" where
  "last_match_indent lines =
     (case filter (\<lambda>l. first_abbr EXERCISE_PATTERNS l \<noteq> None) (rev lines) of
        [] \<Rightarrow> 0
      | l # _ \<Rightarrow> leading_whitespace l)"

text \<open>The exercise carried from line to line is an abbreviation of the table, or none.\<close>

definition known_abbr :: "string option \<Rightarrow> bool" where
  "known_abbr a = (case a of None \<Rightarrow> True | Some k \<Rightarrow> map_of EXERCISE_PATTERNS k \<noteq> None)"

text \<open>
  Two lines of a training note: the abbreviation alone, then its sets, indented by two
  blanks; and the record that the second line makes.
\<close>

definition bp_line :: ustr where
  "bp_line = py ''Bp''"

definition bp_sets_line :: ustr where
  "bp_sets_line = py ''  3x8x100''"

definition set_3x8x100 :: SetData where
  "set_3x8x100 = \<lparr>sd_set = 3, sd_reps = 8, sd_weight = py ''100''\<rparr>"

definition bp_exercise :: ExerciseData where
  "bp_exercise =
     \<lparr>exercise_name = py ''Bench Press'', ex_abbreviation = py ''Bp'',
      ex_sets = [set_3x8x100], total_sets = 1, ex_raw_line = py ''3x8x100''\<rparr>"

text \<open>
  The spec's line with two abbreviations, the same line with the two in the other order,
  and the record that either makes.
\<close>

definition row_press_line :: ustr where
  "row_press_line = py ''Row and Press 3x8x100''"

definition press_row_line :: ustr where
  "press_row_line = py ''Press and Row 3x8x100''"



text \<open>A line whose set count is 4301 nines: one digit more than \<^verbatim>\<open>int()\<close> reads.\<close>

definition long_sets_line :: ustr where
  "long_sets_line = replicate 4301 57 @ py ''x8x100''"

text \<open>
  A training note whose abbreviation line is indented by two blanks and whose line of sets
  is indented by four.
\<close>

definition inner_bp_line :: ustr where
  "inner_bp_line = py ''  Bp''"

definition deep_sets_line :: ustr where
  "deep_sets_line = py ''    4x6x110''"


text \<open>
  The claim's form of a timestamp for comparison: sub-second precision cut off and a blank
  separator written as \<^verbatim>\<open>T\<close>. The parser applies it to the creation timestamp only.
\<close>

definition spec_normalize :: "ustr \<Rightarrow> ustr" where
  "spec_normalize timestamp = replace 32 (py ''T'') (hd (split 46 timestamp))"

text \<open>
  A creation timestamp in the format of the acceptance test, and two texts that embed the
  same instant: one with a blank before the time, one with \<^verbatim>\<open>T\<close>.
\<close>

definition keep_created :: ustr where
  "keep_created = py ''2026-01-23 02:00:49.707000+00:00''"

definition blank_text :: ustr where
  "blank_text = py ''2026-01-23 02:00:49 Warmup''"

definition t_text :: ustr where
  "t_text = py ''2026-01-23T02:00:49 Warmup''"

text \<open>
  A note whose title holds one Hacker News link and whose text holds that link again
  between two occurrences of another.
\<close>

definition hn_repeat_note :: note_rec where
  "hn_repeat_note =
     \<lparr>n_id = None,
      n_title = Some (py ''https://news.ycombinator.com/item?id=11111''),
      n_text = Some (py ''http://news.ycombinator.com/item?id=22222 https://news.ycombinator.com/item?id=11111 http://news.ycombinator.com/item?id=22222''),
      n_labels = None, n_timestamps = None\<rparr>"

definition hn_link_http_22222 :: HNLink where
  "hn_link_http_22222 =
     \<lparr>link_url = py ''http://news.ycombinator.com/item?id=22222'', link_item_id = py ''22222''\<rparr>"

section \<open>Evaluation rules\<close>

lemmas str_eval = py_def strip_def lstrip_def rstrip_def split_def replace_def slice_def zfill2_def
  isspace_def in_ranges_def isdecimal_def isword_def casekey_def
lemmas re_eval = re_match_def re_search_def match_at_def m_group_def group0_def greedy_def span_def
  at_end_def at_boundary_def lits_def lits_i_def finditer_def finditer_from.simps

lemma get_parser_Inr_iff:
  "get_parser parsers note_data = Inr parser \<longleftrightarrow>
     (\<exists>i < length parsers. parsers ! i = parser \<and> can_parse parser note_data = Inr True
        \<and> (\<forall>j < i. can_parse (parsers ! j) note_data = Inr False))"
proof (induction parsers)
  case Nil
  show ?case by simp
next
  case (Cons p ps)
  show ?case
  proof (cases "can_parse p note_data")
    case (Inl e)
    then show ?thesis by (auto simp: Ex_less_Suc2 All_less_Suc2)
  next
    case (Inr accepted)
    with Cons show ?thesis
      by (cases accepted) (auto simp: Ex_less_Suc2 All_less_Suc2)
  qed
qed

lemma get_parser_none:
  "\<forall>p \<in> set parsers. can_parse p note_data = Inr False \<Longrightarrow>
     get_parser parsers note_data = Inl (ValueError ''No suitable parser found for the given note data'')"
  by (induction parsers) auto


lemma hackernews_rejects_bench_note: "hackernews_can_parse bench_note = Inr False"
  by (simp add: hackernews_can_parse_def bench_note_def dict_get_def HN_URL_PATTERN_def
      str_eval re_eval)

lemma time_entry_rejects_bench_note: "time_entry_can_parse bench_note = Inr False"
  by (simp add: time_entry_can_parse_def bench_note_def dict_get_def TIME_CODE_PATTERN_def
      checkbox_glyph_def not_newline_def str_eval re_eval)

lemma training_accepts_bench_note: "training_can_parse bench_note = Inr True"
  by (simp add: training_can_parse_def bench_note_def dict_get_def normalize_checkboxes_def
      EXERCISE_PATTERNS_def abbr_pattern_def SET_REP_WEIGHT_PATTERN_def times_sign_def
      str_eval re_eval)

text \<open>
  C2. \<^verbatim>\<open>get_parser\<close> walks the registered parsers in registration order and returns the
  first one whose \<^verbatim>\<open>can_parse\<close> is true for the note: it returns a parser exactly when
  that parser sits at an index where \<^verbatim>\<open>can_parse\<close> is true and every earlier parser
  answered false. When every registered parser answers false it raises the
  \<^verbatim>\<open>ValueError\<close> "No suitable parser found for the given note data".
\<close>

theorem get_parser_registration_order:
  "(get_parser parsers note_data = Inr parser \<longleftrightarrow>
      (\<exists>i < length parsers. parsers ! i = parser \<and> can_parse parser note_data = Inr True
         \<and> (\<forall>j < i. can_parse (parsers ! j) note_data = Inr False)))
   \<and> ((\<forall>p \<in> set parsers. can_parse p note_data = Inr False) \<longrightarrow>
        get_parser parsers note_data =
          Inl (ValueError ''No suitable parser found for the given note data''))"
  using get_parser_Inr_iff [of parsers note_data parser] get_parser_none [of parsers note_data]
  by blast

theorem get_parser_registration_order_witness:
  "get_parser (main_registry no_isodate) bench_note = Inr TrainingParser
   \<and> get_parser (main_registry no_isodate) NotDict =
       Inl (ValueError ''No suitable parser found for the given note data'')"
proof -
  let ?ps = "main_registry no_isodate"
  have ps: "?ps = [HackerNewsParser, TimeEntryParser no_isodate, TrainingParser]"
    by (simp add: main_registry_def register_def)
  have accepted: "can_parse TrainingParser bench_note = Inr True"
    by (simp add: TrainingParser_def training_accepts_bench_note)
  have earlier: "\<forall>j < 2. can_parse (?ps ! j) bench_note = Inr False"
    by (simp add: ps All_less_Suc2 numeral_2_eq_2 HackerNewsParser_def TimeEntryParser_def
        hackernews_rejects_bench_note time_entry_rejects_bench_note)
  have "\<exists>i < length ?ps. ?ps ! i = TrainingParser \<and> can_parse TrainingParser bench_note = Inr True
          \<and> (\<forall>j < i. can_parse (?ps ! j) bench_note = Inr False)"
    using accepted earlier by (intro exI [of _ 2]) (simp add: ps)
  then have first: "get_parser ?ps bench_note = Inr TrainingParser"
    using get_parser_registration_order [of ?ps bench_note TrainingParser] by blast
  have "\<forall>p \<in> set ?ps. can_parse p NotDict = Inr False"
    by (simp add: ps HackerNewsParser_def TimeEntryParser_def TrainingParser_def
        hackernews_can_parse_def time_entry_can_parse_def training_can_parse_def)
  then have "get_parser ?ps NotDict =
      Inl (ValueError ''No suitable parser found for the given note data'')"
    using get_parser_registration_order [of ?ps NotDict TrainingParser] by blast
  with first show ?thesis by simp
qed





lemma training_parse_bench_note: "training_parse bench_note = Inr bench_workout"
  by (simp add: training_parse_def bench_note_def bench_workout_def dict_get_def note_created_def
      note_edited_def normalize_checkboxes_def extract_exercises_def initial_state_def
      exercise_step_def extract_sets_def set_data_of_def py_int_def int_max_str_digits_def py_float_def
      decimal_literal_def digit_value_def decimal_ranges_def add_sets_def
      extract_completed_activities_def timestamp_pattern_def t_or_space_def
      EXERCISE_PATTERNS_def abbr_pattern_def SET_REP_WEIGHT_PATTERN_def times_sign_def
      str_eval re_eval Let_def)

lemma registry_parse_accepted:
  assumes "get_parser parsers note_data = Inr parser"
    and "parse parser note_data = Inr parsed_data"
  shows "registry_parse validate parsers note_data =
     (case validate parsed_data (get_schema parser) of
        Some message \<Rightarrow> Inl (ValueError (''Parsed data does not conform to schema: '' @ message))
      | None \<Rightarrow> Inr parsed_data)"
  using assms by (simp add: registry_parse_def)

lemma registry_parse_returns:
  assumes "registry_parse validate parsers note_data = Inr record"
  shows "\<exists>parser. get_parser parsers note_data = Inr parser \<and> parse parser note_data = Inr record
           \<and> validate record (get_schema parser) = None"
  using assms by (auto simp: registry_parse_def split: sum.splits option.splits)

text \<open>
  C1. When \<^verbatim>\<open>get_parser\<close> selects a parser for the note and that parser's \<^verbatim>\<open>parse\<close>
  returns a record, \<^verbatim>\<open>ParserRegistry.parse\<close> validates the record against that parser's
  schema: if the validator fails with a message, it raises the \<^verbatim>\<open>ValueError\<close>
  "Parsed data does not conform to schema: " followed by that message, and if the validator
  passes it returns the record. Whenever it returns a record at all, the record is the one
  the selected parser extracted and it validates against that parser's own schema.
\<close>

theorem registry_parse_validates:
  "(get_parser parsers note_data = Inr parser \<and> parse parser note_data = Inr parsed_data \<longrightarrow>
      (\<forall>message. validate parsed_data (get_schema parser) = Some message \<longrightarrow>
         registry_parse validate parsers note_data =
           Inl (ValueError (''Parsed data does not conform to schema: '' @ message)))
      \<and> (validate parsed_data (get_schema parser) = None \<longrightarrow>
           registry_parse validate parsers note_data = Inr parsed_data))
   \<and> (\<forall>record. registry_parse validate parsers note_data = Inr record \<longrightarrow>
        (\<exists>p. get_parser parsers note_data = Inr p \<and> parse p note_data = Inr record
           \<and> validate record (get_schema p) = None))"
  using registry_parse_accepted [of parsers note_data parser parsed_data validate]
    registry_parse_returns [of validate parsers note_data]
  by (auto split: option.splits)

lemma get_parser_bench_note:
  "get_parser (main_registry no_isodate) bench_note = Inr TrainingParser"
  by (simp add: main_registry_def register_def HackerNewsParser_def TimeEntryParser_def
      TrainingParser_def hackernews_rejects_bench_note time_entry_rejects_bench_note
      training_accepts_bench_note)

theorem registry_parse_validates_witness:
  "registry_parse reject_all (main_registry no_isodate) bench_note =
     Inl (ValueError ''Parsed data does not conform to schema: 3 is not of type string'')
   \<and> registry_parse accept_all (main_registry no_isodate) bench_note = Inr (Workout bench_workout)"
proof -
  have p: "parse TrainingParser bench_note = Inr (Workout bench_workout)"
    by (simp add: TrainingParser_def training_parse_bench_note)
  have r: "reject_all (Workout bench_workout) (get_schema TrainingParser)
             = Some ''3 is not of type string''"
    by (simp add: reject_all_def)
  have a: "accept_all (Workout bench_workout) (get_schema TrainingParser) = None"
    by (simp add: accept_all_def)
  from registry_parse_validates
    [of "main_registry no_isodate" bench_note TrainingParser "Workout bench_workout" reject_all]
    get_parser_bench_note p r
  have 1: "registry_parse reject_all (main_registry no_isodate) bench_note =
     Inl (ValueError (''Parsed data does not conform to schema: '' @ ''3 is not of type string''))"
    by blast
  from registry_parse_validates
    [of "main_registry no_isodate" bench_note TrainingParser "Workout bench_workout" accept_all]
    get_parser_bench_note p a
  have 2: "registry_parse accept_all (main_registry no_isodate) bench_note
             = Inr (Workout bench_workout)"
    by blast
  from 1 2 show ?thesis by simp
qed

lemma main_registry_rejects_empty_note:
  "\<forall>p \<in> set (main_registry isodate). can_parse p empty_note = Inr False"
  by (simp add: main_registry_def register_def HackerNewsParser_def TimeEntryParser_def
      TrainingParser_def hackernews_can_parse_def time_entry_can_parse_def training_can_parse_def
      empty_note_def dict_get_def HN_URL_PATTERN_def str_eval re_eval Let_def)

text \<open>
  C10. \<^verbatim>\<open>main\<close> registers \<^verbatim>\<open>HackerNewsParser\<close>, \<^verbatim>\<open>TimeEntryParser\<close> and
  \<^verbatim>\<open>TrainingParser\<close> only. For the dictionary with empty text \<^verbatim>\<open>ParserRegistry.parse\<close>
  on that registry raises "No suitable parser found for the given note data", whatever the
  validator and the date library are; had \<^verbatim>\<open>GenericNotesParser\<close> been registered last, it
  would have been selected.
\<close>

theorem main_registry_no_fallback:
  "main_registry isodate = [HackerNewsParser, TimeEntryParser isodate, TrainingParser]
   \<and> registry_parse validate (main_registry isodate) empty_note =
       Inl (ValueError ''No suitable parser found for the given note data'')
   \<and> get_parser (register (main_registry isodate) GenericNotesParser) empty_note =
       Inr GenericNotesParser"
proof -
  have 1: "main_registry isodate = [HackerNewsParser, TimeEntryParser isodate, TrainingParser]"
    by (simp add: main_registry_def register_def)
  have 2: "get_parser (main_registry isodate) empty_note =
      Inl (ValueError ''No suitable parser found for the given note data'')"
    using main_registry_rejects_empty_note by (rule get_parser_none)
  have "\<forall>j < 3. can_parse (register (main_registry isodate) GenericNotesParser ! j) empty_note
          = Inr False"
    using main_registry_rejects_empty_note [of isodate]
    by (simp add: 1 register_def All_less_Suc2 numeral_3_eq_3)
  moreover have "can_parse GenericNotesParser empty_note = Inr True"
    by (simp add: GenericNotesParser_def generic_can_parse_def empty_note_def)
  ultimately have "\<exists>i < length (register (main_registry isodate) GenericNotesParser).
      register (main_registry isodate) GenericNotesParser ! i = GenericNotesParser
      \<and> can_parse GenericNotesParser empty_note = Inr True
      \<and> (\<forall>j < i. can_parse (register (main_registry isodate) GenericNotesParser ! j) empty_note
            = Inr False)"
    by (intro exI [of _ 3]) (simp add: 1 register_def)
  then have 3: "get_parser (register (main_registry isodate) GenericNotesParser) empty_note =
      Inr GenericNotesParser"
    by (simp add: get_parser_Inr_iff)
  from 1 2 3 show ?thesis by (simp add: registry_parse_def)
qed

theorem main_registry_no_fallback_witness:
  "registry_parse accept_all (main_registry no_isodate) empty_note =
       Inl (ValueError ''No suitable parser found for the given note data'')
   \<and> generic_can_parse empty_note = Inr True"
proof -
  have "registry_parse accept_all (main_registry no_isodate) empty_note =
       Inl (ValueError ''No suitable parser found for the given note data'')"
    using main_registry_no_fallback [of no_isodate accept_all] by blast
  moreover have "generic_can_parse empty_note = Inr True"
    by (simp add: generic_can_parse_def empty_note_def)
  ultimately show ?thesis by blast
qed

lemma extract_links_loop_first_occurrences:
  "seen_links = set links \<Longrightarrow>
     extract_links_loop links seen_links matches =
       links @ first_occurrences (filter (\<lambda>l. l \<notin> set links) matches)"
proof (induction matches arbitrary: links seen_links)
  case Nil
  show ?case by simp
next
  case (Cons link matches)
  show ?case
  proof (cases "link \<in> set links")
    case True
    with Cons show ?thesis by simp
  next
    case False
    have "filter (\<lambda>l. l \<notin> set (links @ [link])) matches =
          filter (\<lambda>y. y \<noteq> link) (filter (\<lambda>l. l \<notin> set links) matches)"
      by (induction matches) auto
    with False Cons.prems Cons.IH [of "insert link seen_links" "links @ [link]"]
    show ?thesis by simp
  qed
qed

lemma set_first_occurrences: "set (first_occurrences xs) = set xs"
proof (induction xs rule: first_occurrences.induct)
  case 1
  show ?case by simp
next
  case (2 x xs)
  then show ?case by auto
qed

lemma distinct_first_occurrences: "distinct (first_occurrences xs)"
proof (induction xs rule: first_occurrences.induct)
  case 1
  show ?case by simp
next
  case (2 x xs)
  then show ?case by (simp add: set_first_occurrences)
qed

lemma url_matches_example:
  "url_matches (py ''https://a.com and https://a.com again'') = [py ''https://a.com'', py ''https://a.com'']"
  by (simp add: url_matches_def URL_PATTERN_def url_char_def str_eval re_eval Let_def)

lemma generic_parse_links:
  "\<exists>r. generic_parse (Dict n) = Inr r \<and> gn_links r = extract_links (dict_get (n_text n) [])"
  by (simp add: generic_parse_def Let_def split: prod.splits)

text \<open>
  C9. For every text, the links of \<^verbatim>\<open>GenericNotesParser\<close> are the matches of the URL
  pattern without their repetitions, each at the place of its first occurrence: the list
  has no duplicates and holds exactly the matched strings. The generic record carries this
  list, and the text "https://a.com and https://a.com again" gives the single link
  "https://a.com".
\<close>

theorem extract_links_first_occurrences:
  "extract_links text = first_occurrences (url_matches text)
   \<and> distinct (extract_links text)
   \<and> set (extract_links text) = set (url_matches text)
   \<and> (\<exists>r. generic_parse (Dict n) = Inr r \<and> gn_links r = extract_links (dict_get (n_text n) []))
   \<and> extract_links (py ''https://a.com and https://a.com again'') = [py ''https://a.com'']"
proof -
  have e: "extract_links t = first_occurrences (url_matches t)" for t
    by (simp add: extract_links_def url_matches_def extract_links_loop_first_occurrences)
  have "extract_links (py ''https://a.com and https://a.com again'') = [py ''https://a.com'']"
    by (simp add: e url_matches_example)
  with e [of "text"] generic_parse_links [of n] show ?thesis
    by (simp add: distinct_first_occurrences set_first_occurrences)
qed

theorem extract_links_first_occurrences_witness:
  "\<exists>r. generic_parse links_note = Inr r \<and> gn_links r = [py ''https://a.com'']"
proof -
  let ?n = "\<lparr>n_id = None, n_title = None,
           n_text = Some (py ''https://a.com and https://a.com again''),
           n_labels = None, n_timestamps = None\<rparr>"
  from extract_links_first_occurrences [of "dict_get (n_text ?n) []" ?n]
  obtain r where r: "generic_parse (Dict ?n) = Inr r"
    "gn_links r = extract_links (dict_get (n_text ?n) [])"
    and x: "extract_links (py ''https://a.com and https://a.com again'') = [py ''https://a.com'']"
    by blast
  from r(2) x have "gn_links r = [py ''https://a.com'']"
    by (simp add: dict_get_def)
  with r(1) show ?thesis by (simp add: links_note_def)
qed

lemma extract_hn_urls_11111:
  "extract_hn_urls (py ''https://news.ycombinator.com/item?id=11111'') = [hn_link_11111]"
  by (simp add: extract_hn_urls_def hn_link_11111_def HN_URL_PATTERN_def str_eval re_eval Let_def)

lemma extract_hn_urls_22222:
  "extract_hn_urls (py ''https://news.ycombinator.com/item?id=22222'') = [hn_link_22222]"
  by (simp add: extract_hn_urls_def hn_link_22222_def HN_URL_PATTERN_def str_eval re_eval Let_def)





lemma greedy_mem:
  "st' \<in> set (greedy lo hi st) \<longleftrightarrow>
     snd st' = snd st \<and> (\<exists>k. lo \<le> k \<and> k \<le> hi \<and> fst st' = fst st + k)"
  by (cases st') (auto simp: greedy_def)

lemma span_slice:
  assumes "k \<le> span a s i"
  shows "list_all (atom_ok a) (slice s i (i + k))" and "length (slice s i (i + k)) = k"
proof -
  let ?p = "takeWhile (atom_ok a) (drop i s)"
  have "take k (drop i s) = take k ?p"
    using assms
    by (metis span_def append_take_drop_id takeWhile_dropWhile_id take_append diff_is_0_eq
        take_0 append_Nil2 take_take min.absorb1)
  moreover have "list_all (atom_ok a) (take k ?p)"
    by (metis list_all_iff in_set_takeD set_takeWhileD)
  ultimately show "list_all (atom_ok a) (slice s i (i + k))"
    by (simp add: slice_def)
  have "k \<le> length (drop i s)"
    using assms length_takeWhile_le [of "atom_ok a" "drop i s"] by (simp add: span_def)
  then show "length (slice s i (i + k)) = k"
    by (simp add: slice_def)
qed

lemma run_time_code_group:
  assumes "st \<in> set (run TIME_CODE_PATTERN s (0, Map.empty))"
  shows "\<exists>i k. snd st 1 = Some (i, i + k) \<and> 3 \<le> k \<and> k \<le> 4 \<and> k \<le> span (Cls isdecimal) s i"
  using assms
  by (auto simp: TIME_CODE_PATTERN_def greedy_mem split: if_splits)

lemma match_at_run:
  assumes "match_at r s i = Some m"
  shows "\<exists>st \<in> set (run r s (i, Map.empty)).
           m_start m = i \<and> m_end m = fst st \<and> m_caps m = snd st"
  using assms by (cases "run r s (i, Map.empty)") (auto simp: match_at_def)

lemma time_code_group:
  assumes "re_match TIME_CODE_PATTERN s = Some m"
  shows "list_all isdecimal (m_group s m 1)"
    and "length (m_group s m 1) = 3 \<or> length (m_group s m 1) = 4"
proof -
  from assms obtain st where st: "st \<in> set (run TIME_CODE_PATTERN s (0, Map.empty))"
    and m: "m_caps m = snd st"
    using match_at_run [of TIME_CODE_PATTERN s 0 m] by (auto simp: re_match_def)
  from run_time_code_group [OF st] obtain i k where
    ik: "snd st 1 = Some (i, i + k)" "3 \<le> k" "k \<le> 4" "k \<le> span (Cls isdecimal) s i"
    by blast
  from m ik(1) have g: "m_group s m 1 = slice s i (i + k)"
    by (simp add: m_group_def)
  from span_slice [OF ik(4)] g show "list_all isdecimal (m_group s m 1)"
    by (simp add: list_all_iff)
  from span_slice(2) [OF ik(4)] g ik(2,3)
  show "length (m_group s m 1) = 3 \<or> length (m_group s m 1) = 4"
    by auto
qed

lemma isdecimal_in_ranges: "isdecimal c = in_ranges decimal_ranges c"
  by (auto simp: isdecimal_def in_ranges_def decimal_ranges_def)

lemma digit_value_isdecimal: "isdecimal c \<Longrightarrow> \<exists>d. digit_value c = Some d"
  by (auto simp: isdecimal_in_ranges in_ranges_def digit_value_def list_ex_iff filter_empty_conv
      split: list.splits)

lemma int_digits_decimal:
  "list_all isdecimal ds \<Longrightarrow>
     int_digits acc ds =
       Some (foldl (\<lambda>acc c. 10 * acc + (case digit_value c of None \<Rightarrow> 0 | Some d \<Rightarrow> d)) acc ds)"
proof (induction ds arbitrary: acc)
  case Nil
  show ?case by simp
next
  case (Cons c ds)
  from Cons.prems obtain d where "digit_value c = Some d"
    using digit_value_isdecimal by auto
  with Cons show ?case by simp
qed

lemma py_int_decimal:
  "list_all isdecimal ds \<Longrightarrow> ds \<noteq> [] \<Longrightarrow> length ds \<le> int_max_str_digits \<Longrightarrow>
     py_int ds = Some (int (decimal_value ds))"
  by (simp add: py_int_def decimal_value_def int_digits_decimal)

lemma py_int_long: "int_max_str_digits < length ds \<Longrightarrow> py_int ds = None"
  by (simp add: py_int_def)

lemma is_valid_time_code_spec:
  assumes "list_all isdecimal code"
  shows "is_valid_time_code code = Inr (spec_valid_code code)"
proof -
  have t: "list_all isdecimal (take n code)" and d: "list_all isdecimal (drop n code)" for n
    using assms by (auto simp: list_all_iff dest: in_set_takeD in_set_dropD)
  consider "length code = 3" | "length code = 4" | "length code \<noteq> 3 \<and> length code \<noteq> 4"
    by blast
  then show ?thesis
  proof cases
    case 1
    then have "take 1 code \<noteq> []" "drop 1 code \<noteq> []" by auto
    with 1 assms show ?thesis
      by (simp add: is_valid_time_code_def spec_valid_code_def hours_minutes_ok_def
          py_int_decimal int_max_str_digits_def t d)
  next
    case 2
    then have "take 2 code \<noteq> []" "drop 2 code \<noteq> []" by auto
    with 2 assms show ?thesis
      by (simp add: is_valid_time_code_def spec_valid_code_def hours_minutes_ok_def
          py_int_decimal int_max_str_digits_def t d)
  next
    case 3
    then show ?thesis
      by (simp add: is_valid_time_code_def spec_valid_code_def)
  qed
qed

lemma count_time_entries_filter:
  "count_time_entries k lines = Inr (k + length (filter matching_line lines))"
proof (induction lines arbitrary: k)
  case Nil
  show ?case by simp
next
  case (Cons line lines)
  show ?case
  proof (cases "re_match TIME_CODE_PATTERN (strip line)")
    case None
    with Cons show ?thesis by (simp add: matching_line_def)
  next
    case (Some m)
    from time_code_group(1) [OF Some]
    have "is_valid_time_code (m_group (strip line) m 1)
            = Inr (spec_valid_code (m_group (strip line) m 1))"
      by (rule is_valid_time_code_spec)
    with Some Cons show ?thesis by (simp add: matching_line_def)
  qed
qed

lemma time_entry_can_parse_lines:
  "time_entry_can_parse (Dict n) =
     Inr (2 \<le> length (filter matching_line (split 10 (strip (dict_get (n_text n) [])))))"
proof (cases "dict_get (n_text n) [] = []")
  case True
  have "\<not> matching_line []"
    by (simp add: matching_line_def TIME_CODE_PATTERN_def str_eval re_eval)
  with True show ?thesis
    by (simp add: time_entry_can_parse_def split_def strip_def lstrip_def rstrip_def)
next
  case False
  then show ?thesis
    by (simp add: time_entry_can_parse_def count_time_entries_filter Let_def)
qed

lemma split_loop_piece:
  "split_loop sep piece s = (piece @ hd (split_loop sep [] s)) # tl (split_loop sep [] s)"
proof (induction s arbitrary: piece)
  case Nil
  show ?case by simp
next
  case (Cons c cs)
  show ?case
  proof (cases "c = sep")
    case True
    then show ?thesis by simp
  next
    case False
    with Cons [of "piece @ [c]"] Cons [of "[c]"] show ?thesis by simp
  qed
qed

lemma split_Nil: "split sep [] = [[]]"
  by (simp add: split_def)

lemma split_Cons:
  "split sep (c # cs) =
     (if c = sep then [] # split sep cs else (c # hd (split sep cs)) # tl (split sep cs))"
  using split_loop_piece [of sep "[c]" cs] by (simp add: split_def)

lemma split_not_Nil: "split sep s \<noteq> []"
  by (induction s) (auto simp: split_Nil split_Cons)

lemma split_snoc:
  "split sep (xs @ [c]) =
     (if c = sep then split sep xs @ [[]]
      else butlast (split sep xs) @ [last (split sep xs) @ [c]])"
proof (induction xs)
  case Nil
  show ?case by (simp add: split_Nil split_Cons)
next
  case (Cons x xs)
  obtain l ls where sp: "split sep xs = l # ls"
    using split_not_Nil [of sep xs] by (cases "split sep xs") auto
  show ?case
  proof (cases "c = sep")
    case True
    with Cons sp show ?thesis by (simp add: split_Cons)
  next
    case False
    with Cons sp show ?thesis by (cases ls) (auto simp: split_Cons)
  qed
qed

lemma strip_Cons_space: "isspace c \<Longrightarrow> strip (c # l) = strip l"
  by (simp add: strip_def lstrip_def)

lemma strip_snoc_space: "isspace c \<Longrightarrow> strip (l @ [c]) = strip l"
proof -
  assume c: "isspace c"
  show ?thesis
  proof (cases "\<forall>x \<in> set l. isspace x")
    case True
    have a: "dropWhile isspace (l @ [c]) = []"
      using True c by (simp add: dropWhile_eq_Nil_conv)
    have b: "dropWhile isspace l = []"
      using True by (simp add: dropWhile_eq_Nil_conv)
    show ?thesis
      unfolding strip_def lstrip_def rstrip_def a b by simp
  next
    case False
    then obtain x where "x \<in> set l" "\<not> isspace x" by blast
    then have "dropWhile isspace (l @ [c]) = dropWhile isspace l @ [c]"
      by (rule dropWhile_append1)
    with c show ?thesis by (simp add: strip_def lstrip_def rstrip_def)
  qed
qed

lemma strip_Nil: "strip [] = []"
  by (simp add: strip_def lstrip_def rstrip_def)

lemma trimmed_lines_Cons_space:
  assumes "isspace c"
  shows "trimmed_lines (split 10 (c # t)) = trimmed_lines (split 10 t)"
proof -
  obtain l ls where sp: "split 10 t = l # ls"
    using split_not_Nil [of 10 t] by (cases "split 10 t") auto
  with assms show ?thesis
    by (simp add: trimmed_lines_def strip_Cons_space strip_Nil split_Cons)
qed

lemma trimmed_lines_snoc_space:
  assumes "isspace c"
  shows "trimmed_lines (split 10 (t @ [c])) = trimmed_lines (split 10 t)"
proof -
  have ne: "split 10 t \<noteq> []" by (rule split_not_Nil)
  show ?thesis
  proof (cases "c = 10")
    case True
    then show ?thesis by (simp add: split_snoc trimmed_lines_def strip_Nil)
  next
    case False
    have "trimmed_lines (butlast (split 10 t) @ [last (split 10 t) @ [c]])
            = trimmed_lines (butlast (split 10 t) @ [last (split 10 t)])"
      using assms by (simp add: trimmed_lines_def strip_snoc_space)
    with False ne show ?thesis by (simp add: split_snoc)
  qed
qed

lemma trimmed_lines_lstrip: "trimmed_lines (split 10 (lstrip t)) = trimmed_lines (split 10 t)"
proof (induction t)
  case Nil
  show ?case by (simp add: lstrip_def)
next
  case (Cons c t)
  show ?case
  proof (cases "isspace c")
    case True
    with Cons trimmed_lines_Cons_space [OF True, of t] show ?thesis
      by (simp add: lstrip_def)
  next
    case False
    then show ?thesis by (simp add: lstrip_def)
  qed
qed

lemma trimmed_lines_rstrip: "trimmed_lines (split 10 (rstrip t)) = trimmed_lines (split 10 t)"
proof (induction t rule: rev_induct)
  case Nil
  show ?case by (simp add: rstrip_def)
next
  case (snoc c t)
  show ?case
  proof (cases "isspace c")
    case True
    with snoc trimmed_lines_snoc_space [OF True, of t] show ?thesis
      by (simp add: rstrip_def)
  next
    case False
    then show ?thesis by (simp add: rstrip_def)
  qed
qed

lemma trimmed_lines_strip: "trimmed_lines (split 10 (strip t)) = trimmed_lines (split 10 t)"
  by (simp add: strip_def trimmed_lines_rstrip trimmed_lines_lstrip)

lemma dropWhile_id: "xs = [] \<or> \<not> P (hd xs) \<Longrightarrow> dropWhile P xs = xs"
  by (cases xs) auto

lemma rstrip_prefix: "\<exists>ws. x = rstrip x @ ws"
proof -
  have "rev (dropWhile isspace (rev x)) @ rev (takeWhile isspace (rev x))
          = rev (takeWhile isspace (rev x) @ dropWhile isspace (rev x))"
    by (simp only: rev_append)
  also have "\<dots> = rev (rev x)" by (simp only: takeWhile_dropWhile_id)
  finally have "x = rstrip x @ rev (takeWhile isspace (rev x))"
    by (simp add: rstrip_def)
  then show ?thesis ..
qed

lemma strip_strip: "strip (strip l) = strip l"
proof (cases "strip l = []")
  case True
  then show ?thesis by (simp add: strip_Nil)
next
  case False
  let ?x = "lstrip l"
  let ?s = "rstrip ?x"
  have s: "strip l = ?s" by (simp add: strip_def)
  with False have ne: "?s \<noteq> []" by simp
  obtain ws where ws: "?x = ?s @ ws" using rstrip_prefix by blast
  with ne have xne: "?x \<noteq> []" by auto
  from ws ne have "hd ?s = hd ?x" by (metis hd_append2)
  moreover from xne have "\<not> isspace (hd ?x)"
    unfolding lstrip_def by (rule hd_dropWhile)
  ultimately have h: "\<not> isspace (hd ?s)" by simp
  from ne have dne: "dropWhile isspace (rev ?x) \<noteq> []" by (simp add: rstrip_def)
  then have "\<not> isspace (hd (dropWhile isspace (rev ?x)))" by (rule hd_dropWhile)
  then have la: "\<not> isspace (hd (rev ?s))" by (simp add: rstrip_def)
  from h have 1: "lstrip ?s = ?s"
    unfolding lstrip_def [of ?s] by (intro dropWhile_id) simp
  from la have "dropWhile isspace (rev ?s) = rev ?s"
    by (intro dropWhile_id) simp
  then have 2: "rstrip ?s = ?s" by (simp add: rstrip_def [of ?s])
  from 1 2 show ?thesis unfolding s by (simp add: strip_def [of ?s])
qed

lemma matching_line_strip: "matching_line (strip l) = matching_line l"
  by (simp add: matching_line_def strip_strip cong: option.case_cong)

lemma not_matching_line_Nil: "\<not> matching_line []"
  by (simp add: matching_line_def TIME_CODE_PATTERN_def str_eval re_eval)

lemma filter_matching_trimmed:
  "length (filter matching_line ls) = length (filter matching_line (trimmed_lines ls))"
proof (induction ls)
  case Nil
  show ?case by (simp add: trimmed_lines_def)
next
  case (Cons l ls)
  show ?case
  proof (cases "strip l = []")
    case True
    then have "\<not> matching_line l"
      using matching_line_strip [of l] not_matching_line_Nil by simp
    with True Cons show ?thesis by (simp add: trimmed_lines_def)
  next
    case False
    with Cons show ?thesis by (simp add: trimmed_lines_def matching_line_strip)
  qed
qed

lemma matching_lines_strip:
  "length (filter matching_line (split 10 (strip t))) = length (filter matching_line (split 10 t))"
  using filter_matching_trimmed [of "split 10 (strip t)"] filter_matching_trimmed [of "split 10 t"]
  by (simp add: trimmed_lines_strip)

lemma digit_value_ascii: "48 \<le> c \<Longrightarrow> c \<le> 57 \<Longrightarrow> digit_value c = Some (c - 48)"
proof -
  assume c: "48 \<le> c" "c \<le> 57"
  obtain rs where rs: "decimal_ranges = (48, 57) # rs"
    by (simp add: decimal_ranges_def)
  from c have "(c - 48) mod 10 = c - 48" by simp
  with c show ?thesis by (simp add: digit_value_def rs)
qed

lemmas spec_eval = matching_line_def spec_valid_code_def decimal_value_def digit_value_ascii
  TIME_CODE_PATTERN_def checkbox_glyph_def not_newline_def

lemma matching_line_iff:
  "matching_line line \<longleftrightarrow>
     (\<exists>m. re_match TIME_CODE_PATTERN (strip line) = Some m
          \<and> is_valid_time_code (m_group (strip line) m 1) = Inr True)"
proof (cases "re_match TIME_CODE_PATTERN (strip line)")
  case None
  then show ?thesis by (simp add: matching_line_def)
next
  case (Some m)
  from time_code_group(1) [OF Some]
  have "is_valid_time_code (m_group (strip line) m 1)
          = Inr (spec_valid_code (m_group (strip line) m 1))"
    by (rule is_valid_time_code_spec)
  with Some show ?thesis by (simp add: matching_line_def)
qed

lemma spec_valid_code_3:
  "list_all isdecimal code \<Longrightarrow> length code = 3 \<Longrightarrow>
     spec_valid_code code = (decimal_value (take 1 code) \<le> 23 \<and> decimal_value (drop 1 code) \<le> 59)"
  by (simp add: spec_valid_code_def)

lemma spec_valid_code_4:
  "list_all isdecimal code \<Longrightarrow> length code = 4 \<Longrightarrow>
     spec_valid_code code = (decimal_value (take 2 code) \<le> 23 \<and> decimal_value (drop 2 code) \<le> 59)"
  by (simp add: spec_valid_code_def)

text \<open>
  C7. \<^verbatim>\<open>TimeEntryParser.can_parse\<close> answers true for a dictionary exactly when at least
  two lines of its text match: a line matches when the time-code pattern matches it (trimmed,
  as the parser trims it) and the captured code passes \<^verbatim>\<open>_is_valid_time_code\<close>. On a code
  of three digits that check reads the first digit as the hours and the last two as the
  minutes, on a code of four digits the first two and the last two, and it passes exactly
  when \<open>0 \<le> hours \<le> 23\<close> and \<open>0 \<le> minutes \<le> 59\<close>. A note that is no dictionary is refused.
\<close>

theorem time_entry_can_parse_two_lines:
  "time_entry_can_parse (Dict n) =
     Inr (2 \<le> length (filter matching_line (split 10 (dict_get (n_text n) []))))
   \<and> time_entry_can_parse NotDict = Inr False
   \<and> (\<forall>line. matching_line line \<longleftrightarrow>
         (\<exists>m. re_match TIME_CODE_PATTERN (strip line) = Some m
              \<and> is_valid_time_code (m_group (strip line) m 1) = Inr True))
   \<and> (\<forall>code. list_all isdecimal code \<and> length code = 3 \<longrightarrow>
         is_valid_time_code code =
           Inr (0 \<le> int (decimal_value (take 1 code)) \<and> int (decimal_value (take 1 code)) \<le> 23
                \<and> 0 \<le> int (decimal_value (drop 1 code)) \<and> int (decimal_value (drop 1 code)) \<le> 59))
   \<and> (\<forall>code. list_all isdecimal code \<and> length code = 4 \<longrightarrow>
         is_valid_time_code code =
           Inr (0 \<le> int (decimal_value (take 2 code)) \<and> int (decimal_value (take 2 code)) \<le> 23
                \<and> 0 \<le> int (decimal_value (drop 2 code)) \<and> int (decimal_value (drop 2 code)) \<le> 59))"
proof -
  have 1: "time_entry_can_parse (Dict n) =
     Inr (2 \<le> length (filter matching_line (split 10 (dict_get (n_text n) []))))"
    by (simp add: time_entry_can_parse_lines matching_lines_strip)
  have 2: "time_entry_can_parse NotDict = Inr False"
    by (simp add: time_entry_can_parse_def)
  have 3: "is_valid_time_code code =
           Inr (0 \<le> int (decimal_value (take 1 code)) \<and> int (decimal_value (take 1 code)) \<le> 23
                \<and> 0 \<le> int (decimal_value (drop 1 code)) \<and> int (decimal_value (drop 1 code)) \<le> 59)"
    if "list_all isdecimal code \<and> length code = 3" for code
    using that by (simp add: is_valid_time_code_spec spec_valid_code_3)
  have 4: "is_valid_time_code code =
           Inr (0 \<le> int (decimal_value (take 2 code)) \<and> int (decimal_value (take 2 code)) \<le> 23
                \<and> 0 \<le> int (decimal_value (drop 2 code)) \<and> int (decimal_value (drop 2 code)) \<le> 59)"
    if "list_all isdecimal code \<and> length code = 4" for code
    using that by (simp add: is_valid_time_code_spec spec_valid_code_4)
  from 1 2 3 4 matching_line_iff show ?thesis by blast
qed

lemma day_text_lines:
  "filter matching_line (split 10 day_text) = [py ''1420 Lunch'', py ''0637 Woke up'', py ''1053 Coffee'']"
  by (simp add: day_text_def spec_eval str_eval re_eval Let_def)

lemma late_text_lines: "filter matching_line (split 10 late_text) = [py ''1420 Lunch'']"
  by (simp add: late_text_def spec_eval str_eval re_eval Let_def)

theorem time_entry_can_parse_two_lines_witness:
  "time_entry_can_parse (Dict day_note) = Inr True
   \<and> time_entry_can_parse (Dict late_note) = Inr False
   \<and> is_valid_time_code (py ''637'') = Inr True
   \<and> is_valid_time_code (py ''2575'') = Inr False"
proof -
  note day = time_entry_can_parse_two_lines [of day_note, THEN conjunct1]
  note late = time_entry_can_parse_two_lines [of late_note, THEN conjunct1]
  have 1: "time_entry_can_parse (Dict day_note) = Inr True"
    unfolding day by (simp add: day_note_def dict_get_def day_text_lines)
  have 2: "time_entry_can_parse (Dict late_note) = Inr False"
    unfolding late by (simp add: late_note_def dict_get_def late_text_lines)
  have d3: "list_all isdecimal (py ''637'') \<and> length (py ''637'') = 3"
    by (simp add: str_eval)
  have d4: "list_all isdecimal (py ''2575'') \<and> length (py ''2575'') = 4"
    by (simp add: str_eval)
  from time_entry_can_parse_two_lines [of day_note] d3
  have "is_valid_time_code (py ''637'') =
           Inr (0 \<le> int (decimal_value (take 1 (py ''637''))) \<and> int (decimal_value (take 1 (py ''637''))) \<le> 23
                \<and> 0 \<le> int (decimal_value (drop 1 (py ''637''))) \<and> int (decimal_value (drop 1 (py ''637''))) \<le> 59)"
    by blast
  then have 3: "is_valid_time_code (py ''637'') = Inr True"
    by (simp add: decimal_value_def digit_value_ascii py_def)
  from time_entry_can_parse_two_lines [of day_note] d4
  have "is_valid_time_code (py ''2575'') =
           Inr (0 \<le> int (decimal_value (take 2 (py ''2575''))) \<and> int (decimal_value (take 2 (py ''2575''))) \<le> 23
                \<and> 0 \<le> int (decimal_value (drop 2 (py ''2575''))) \<and> int (decimal_value (drop 2 (py ''2575''))) \<le> 59)"
    by blast
  then have 4: "is_valid_time_code (py ''2575'') = Inr False"
    by (simp add: decimal_value_def digit_value_ascii py_def)
  from 1 2 3 4 show ?thesis by blast
qed











lemma finditer_from_match:
  "m \<in> set (finditer_from r s pos) \<Longrightarrow> \<exists>i. match_at r s i = Some m"
proof (induction r s pos rule: finditer_from.induct)
  case (1 r s pos)
  show ?case
  proof (cases "length s < pos")
    case True
    with "1.prems" show ?thesis by (simp add: finditer_from.simps)
  next
    case False
    show ?thesis
    proof (cases "match_at r s pos")
      case None
      with False "1.prems" "1.IH"(1) show ?thesis
        by (simp add: finditer_from.simps [of r s pos])
    next
      case (Some m')
      with False "1.prems" have "m = m' \<or>
          m \<in> set (finditer_from r s (if pos < m_end m' then m_end m' else Suc pos))"
        by (simp add: finditer_from.simps [of r s pos])
      then show ?thesis
      proof
        assume "m = m'"
        with Some show ?thesis by blast
      next
        assume "m \<in> set (finditer_from r s (if pos < m_end m' then m_end m' else Suc pos))"
        with False Some "1.IH"(2) show ?thesis by blast
      qed
    qed
  qed
qed

lemma greedy_bounds:
  "st' \<in> set (greedy lo hi st) \<longleftrightarrow>
     snd st' = snd st \<and> fst st + lo \<le> fst st' \<and> fst st' \<le> fst st + hi"
proof -
  have "(\<exists>k. lo \<le> k \<and> k \<le> hi \<and> fst st' = fst st + k)
          \<longleftrightarrow> (fst st + lo \<le> fst st' \<and> fst st' \<le> fst st + hi)"
    by (auto intro: exI [of _ "fst st' - fst st"])
  then show ?thesis by (simp add: greedy_mem)
qed

lemma span_slice_between:
  assumes "i \<le> j" and "j \<le> i + span a s i"
  shows "list_all (atom_ok a) (slice s i j)" and "length (slice s i j) = j - i"
  using span_slice [of "j - i" a s i] assms by simp_all

lemma run_set_pattern_groups:
  assumes "st \<in> set (run SET_REP_WEIGHT_PATTERN s (i0, Map.empty))"
  shows "\<exists>i j. snd st 1 = Some (i, j) \<and> i < j \<and> j \<le> i + span (Cls isdecimal) s i"
    and "\<exists>i j. snd st 2 = Some (i, j) \<and> i < j \<and> j \<le> i + span (Cls isdecimal) s i"
    and "\<exists>i j. snd st 3 = Some (i, j)
           \<and> ((i < j \<and> j \<le> i + span (Cls isdecimal) s i)
               \<or> (\<exists>p. i < p \<and> p \<le> i + span (Cls isdecimal) s i \<and> p < length s \<and> s ! p = 46
                      \<and> Suc p < j \<and> j \<le> Suc p + span (Cls isdecimal) s (Suc p)))"
  using assms
  by (auto simp: SET_REP_WEIGHT_PATTERN_def greedy_bounds split: if_splits)

lemma slice_append: "i \<le> p \<Longrightarrow> p \<le> j \<Longrightarrow> slice s i j = slice s i p @ slice s p j"
proof -
  assume a: "i \<le> p" "p \<le> j"
  then have "j - i = (p - i) + (j - p)" by simp
  then have "take (j - i) (drop i s) = take (p - i) (drop i s) @ take (j - p) (drop (p - i) (drop i s))"
    by (simp only: take_add)
  with a show ?thesis by (simp add: slice_def)
qed

lemma slice_single: "p < length s \<Longrightarrow> slice s p (Suc p) = [s ! p]"
  by (simp add: slice_def take_Suc_conv_app_nth [of 0, simplified] hd_drop_conv_nth take_Suc)

lemma isdecimal_not_point: "isdecimal c \<Longrightarrow> c \<noteq> 46"
  by (auto simp: isdecimal_def)

lemma decimal_literal_plain:
  assumes "list_all isdecimal ds" and "ds \<noteq> []"
  shows "decimal_literal ds"
proof -
  have "\<forall>c \<in> set ds. c \<noteq> 46"
    using assms(1) isdecimal_not_point by (auto simp: list_all_iff)
  then have tw: "takeWhile (\<lambda>c. c \<noteq> 46) ds = ds"
    and dw: "dropWhile (\<lambda>c. c \<noteq> 46) ds = []"
    by simp_all
  show ?thesis
    unfolding decimal_literal_def Let_def tw dw using assms by simp
qed

lemma decimal_literal_point:
  assumes "list_all isdecimal whole" and "whole \<noteq> []"
    and "list_all isdecimal frac" and "frac \<noteq> []"
  shows "decimal_literal (whole @ 46 # frac)"
proof -
  have w: "\<forall>c \<in> set whole. c \<noteq> 46"
    using assms(1) isdecimal_not_point by (auto simp: list_all_iff)
  then have tw: "takeWhile (\<lambda>c. c \<noteq> 46) (whole @ 46 # frac) = whole"
    by simp
  from w have dw: "dropWhile (\<lambda>c. c \<noteq> 46) (whole @ 46 # frac) = 46 # frac"
    by simp
  show ?thesis
    unfolding decimal_literal_def Let_def tw dw using assms by simp
qed

lemma digits_between:
  assumes "i < j" and "j \<le> i + span (Cls isdecimal) s i"
  shows "list_all isdecimal (slice s i j)" and "slice s i j \<noteq> []"
proof -
  from span_slice_between(1) [of i j "Cls isdecimal" s] assms
  show "list_all isdecimal (slice s i j)" by (simp add: list_all_iff)
  from span_slice_between(2) [of i j "Cls isdecimal" s] assms
  have "length (slice s i j) = j - i" by simp
  with assms(1) show "slice s i j \<noteq> []" by auto
qed


lemma set_data_of_match:
  assumes "match_at SET_REP_WEIGHT_PATTERN line i0 = Some m"
  shows "set_data_of line m =
     (if length (m_group line m 1) \<le> int_max_str_digits
         \<and> length (m_group line m 2) \<le> int_max_str_digits
      then Inr (set_of_match line m)
      else Inl (ValueError ''invalid literal for int()''))"
proof -
  from match_at_run [OF assms] obtain st where
    st: "st \<in> set (run SET_REP_WEIGHT_PATTERN line (i0, Map.empty))" and c: "m_caps m = snd st"
    by blast
  from run_set_pattern_groups(1) [OF st] c obtain i1 j1 where
    g1: "m_group line m 1 = slice line i1 j1" "i1 < j1" "j1 \<le> i1 + span (Cls isdecimal) line i1"
    by (auto simp: m_group_def)
  from run_set_pattern_groups(2) [OF st] c obtain i2 j2 where
    g2: "m_group line m 2 = slice line i2 j2" "i2 < j2" "j2 \<le> i2 + span (Cls isdecimal) line i2"
    by (auto simp: m_group_def)
  from run_set_pattern_groups(3) [OF st] obtain i3 j3 where
    c3: "snd st 3 = Some (i3, j3)"
    and shape: "(i3 < j3 \<and> j3 \<le> i3 + span (Cls isdecimal) line i3)
        \<or> (\<exists>p. i3 < p \<and> p \<le> i3 + span (Cls isdecimal) line i3 \<and> p < length line
               \<and> line ! p = 46 \<and> Suc p < j3 \<and> j3 \<le> Suc p + span (Cls isdecimal) line (Suc p))"
    by blast
  from c c3 have g3: "m_group line m 3 = slice line i3 j3"
    by (simp add: m_group_def)
  have 1: "py_int (m_group line m 1) =
      (if length (m_group line m 1) \<le> int_max_str_digits
       then Some (int (decimal_value (m_group line m 1))) else None)"
    using digits_between [OF g1(2,3)] g1(1) by (simp add: py_int_decimal py_int_long)
  have 2: "py_int (m_group line m 2) =
      (if length (m_group line m 2) \<le> int_max_str_digits
       then Some (int (decimal_value (m_group line m 2))) else None)"
    using digits_between [OF g2(2,3)] g2(1) by (simp add: py_int_decimal py_int_long)
  from shape have "decimal_literal (slice line i3 j3)"
  proof
    assume "i3 < j3 \<and> j3 \<le> i3 + span (Cls isdecimal) line i3"
    then show ?thesis
      using digits_between [of i3 j3 line] by (simp add: decimal_literal_plain)
  next
    assume "\<exists>p. i3 < p \<and> p \<le> i3 + span (Cls isdecimal) line i3 \<and> p < length line
               \<and> line ! p = 46 \<and> Suc p < j3 \<and> j3 \<le> Suc p + span (Cls isdecimal) line (Suc p)"
    then obtain p where p: "i3 < p" "p \<le> i3 + span (Cls isdecimal) line i3" "p < length line"
      "line ! p = 46" "Suc p < j3" "j3 \<le> Suc p + span (Cls isdecimal) line (Suc p)"
      by blast
    have "slice line i3 j3 = slice line i3 p @ slice line p j3"
      using p by (intro slice_append) auto
    also have "slice line p j3 = slice line p (Suc p) @ slice line (Suc p) j3"
      using p by (intro slice_append) auto
    finally have "slice line i3 j3 = slice line i3 p @ 46 # slice line (Suc p) j3"
      using p by (simp add: slice_single)
    with digits_between [OF p(1,2)] digits_between [OF p(5,6)] show ?thesis
      by (simp add: decimal_literal_point)
  qed
  with g3 have 3: "py_float (m_group line m 3) = Some (m_group line m 3)"
    by (simp add: py_float_def)
  from 1 2 3 show ?thesis by (simp add: set_data_of_def set_of_match_def)
qed

lemma collect_sets_matches:
  "\<forall>m \<in> set matches. \<exists>i. match_at SET_REP_WEIGHT_PATTERN line i = Some m \<Longrightarrow>
     collect_sets line sets matches =
       (if list_all (\<lambda>m. length (m_group line m 1) \<le> int_max_str_digits
                          \<and> length (m_group line m 2) \<le> int_max_str_digits) matches
        then Inr (sets @ map (set_of_match line) matches)
        else Inl (ValueError ''invalid literal for int()''))"
proof (induction matches arbitrary: sets)
  case Nil
  show ?case by simp
next
  case (Cons m matches)
  from Cons.prems obtain i where "match_at SET_REP_WEIGHT_PATTERN line i = Some m" by auto
  from set_data_of_match [OF this] Cons show ?case by simp
qed

lemma extract_sets_cases:
  "extract_sets line =
     (if sets_readable line then Inr (line_sets line)
      else Inl (ValueError ''invalid literal for int()''))"
proof -
  have "\<forall>m \<in> set (finditer SET_REP_WEIGHT_PATTERN line).
          \<exists>i. match_at SET_REP_WEIGHT_PATTERN line i = Some m"
    using finditer_from_match by (auto simp: finditer_def)
  then show ?thesis
    by (simp add: extract_sets_def line_sets_def sets_readable_def collect_sets_matches)
qed

lemma extract_sets_line_sets: "sets_readable line \<Longrightarrow> extract_sets line = Inr (line_sets line)"
  by (simp add: extract_sets_cases)

lemma length_slice_le: "length (slice s i j) \<le> length s"
  by (simp add: slice_def)

lemma sets_readable_short:
  assumes "length line \<le> int_max_str_digits"
  shows "sets_readable line"
proof -
  have "length (m_group line m n) \<le> length line" for m n
    by (simp add: m_group_def length_slice_le split: option.splits)
  with assms have "length (m_group line m n) \<le> int_max_str_digits" for m n
    using le_trans by blast
  then show ?thesis by (simp add: sets_readable_def list_all_iff)
qed

lemma indent_leading_whitespace:
  "length line - length (lstrip line) = leading_whitespace line"
proof -
  have "length (takeWhile isspace line @ dropWhile isspace line) = length line" by simp
  then have "length (takeWhile isspace line) + length (dropWhile isspace line) = length line"
    by (simp only: length_append)
  then show ?thesis by (simp add: lstrip_def leading_whitespace_def)
qed

lemma first_abbr_key: "first_abbr table line = Some a \<Longrightarrow> map_of table a \<noteq> None"
  by (induction table line rule: first_abbr.induct) (auto split: if_splits)


lemma exercise_step_raises:
  "\<not> sets_readable line \<Longrightarrow> exercise_step st line = Inl (ValueError ''invalid literal for int()'')"
  by (simp add: exercise_step_def extract_sets_cases Let_def)

lemma exercise_step_matched:
  assumes "first_abbr EXERCISE_PATTERNS line = Some abbr" and "sets_readable line"
  shows "\<exists>st'. exercise_step st line = Inr st'
           \<and> current_exercise st' = Some abbr
           \<and> previous_indent st' = leading_whitespace line
           \<and> (line_sets line = [] \<longrightarrow> exercises_dict st' = exercises_dict st)
           \<and> (line_sets line \<noteq> [] \<longrightarrow>
                (\<exists>e. map_of (exercises_dict st') abbr = Some e
                   \<and> ex_sets e =
                       (case map_of (exercises_dict st) abbr of
                          None \<Rightarrow> [] | Some e0 \<Rightarrow> ex_sets e0) @ line_sets line
                   \<and> total_sets e = length (ex_sets e))
                \<and> (\<forall>k. k \<noteq> abbr \<longrightarrow>
                      map_of (exercises_dict st') k = map_of (exercises_dict st) k))"
proof -
  from first_abbr_key [OF assms(1)] obtain full_name
    where f: "map_of EXERCISE_PATTERNS abbr = Some full_name" by blast
  show ?thesis
  proof (cases "line_sets line = []")
    case True
    with assms show ?thesis
      by (simp add: exercise_step_def extract_sets_line_sets indent_leading_whitespace Let_def)
  next
    case False
    with assms f show ?thesis
      by (cases "map_of (exercises_dict st) abbr")
         (simp_all add: exercise_step_def extract_sets_line_sets indent_leading_whitespace
            Let_def add_sets_def update_conv')
  qed
qed

lemma exercise_step_unmatched:
  assumes "first_abbr EXERCISE_PATTERNS line = None" and "known_abbr (current_exercise st)"
    and "sets_readable line"
  shows "\<exists>st'. exercise_step st line = Inr st'
           \<and> known_abbr (current_exercise st')
           \<and> previous_indent st' = previous_indent st"
proof (cases "line_sets line = []")
  case True
  with assms show ?thesis
    by (simp add: exercise_step_def extract_sets_line_sets Let_def known_abbr_def)
next
  case False
  show ?thesis
  proof (cases "current_exercise st")
    case None
    with False assms show ?thesis
      by (simp add: exercise_step_def extract_sets_line_sets Let_def known_abbr_def)
  next
    case (Some a)
    with assms(2) obtain full_name where "map_of EXERCISE_PATTERNS a = Some full_name"
      by (auto simp: known_abbr_def)
    with Some False assms show ?thesis
      by (cases "map_of (exercises_dict st) a")
         (simp_all add: exercise_step_def extract_sets_line_sets Let_def known_abbr_def
            add_sets_def)
  qed
qed

lemma exercise_step_indent:
  assumes "known_abbr (current_exercise st)" and "sets_readable line"
  shows "\<exists>st'. exercise_step st line = Inr st'
           \<and> known_abbr (current_exercise st')
           \<and> previous_indent st' =
               (if first_abbr EXERCISE_PATTERNS line \<noteq> None then leading_whitespace line
                else previous_indent st)"
proof (cases "first_abbr EXERCISE_PATTERNS line")
  case None
  with exercise_step_unmatched [OF None assms] show ?thesis by simp
next
  case (Some abbr)
  from exercise_step_matched [OF Some assms(2), of st] obtain st' where
    "exercise_step st line = Inr st'" "current_exercise st' = Some abbr"
    "previous_indent st' = leading_whitespace line" by blast
  moreover from first_abbr_key [OF Some] have "known_abbr (Some abbr)"
    by (simp add: known_abbr_def)
  ultimately show ?thesis using Some by simp
qed

lemma scan_lines_indent:
  "known_abbr (current_exercise st) \<Longrightarrow> list_all sets_readable lines \<Longrightarrow>
     \<exists>st'. scan_lines st lines = Inr st'
       \<and> known_abbr (current_exercise st')
       \<and> previous_indent st' =
           (case filter (\<lambda>l. first_abbr EXERCISE_PATTERNS l \<noteq> None) (rev lines) of
              [] \<Rightarrow> previous_indent st
            | l # _ \<Rightarrow> leading_whitespace l)"
proof (induction lines arbitrary: st)
  case Nil
  then show ?case by simp
next
  case (Cons line lines)
  from Cons.prems have r: "sets_readable line" "list_all sets_readable lines" by simp_all
  from exercise_step_indent [OF Cons.prems(1) r(1)] obtain st1 where
    s1: "exercise_step st line = Inr st1" "known_abbr (current_exercise st1)"
      "previous_indent st1 =
         (if first_abbr EXERCISE_PATTERNS line \<noteq> None then leading_whitespace line
          else previous_indent st)"
    by blast
  from Cons.IH [OF s1(2) r(2)] obtain st' where
    s': "scan_lines st1 lines = Inr st'" "known_abbr (current_exercise st')"
      "previous_indent st' =
         (case filter (\<lambda>l. first_abbr EXERCISE_PATTERNS l \<noteq> None) (rev lines) of
            [] \<Rightarrow> previous_indent st1
          | l # _ \<Rightarrow> leading_whitespace l)"
    by blast
  from s1 s' show ?case
    by (cases "filter (\<lambda>l. first_abbr EXERCISE_PATTERNS l \<noteq> None) (rev lines)") auto
qed

lemma scan_lines_raises:
  "known_abbr (current_exercise st) \<Longrightarrow> \<not> list_all sets_readable lines \<Longrightarrow>
     scan_lines st lines = Inl (ValueError ''invalid literal for int()'')"
proof (induction lines arbitrary: st)
  case Nil
  then show ?case by simp
next
  case (Cons line lines)
  show ?case
  proof (cases "sets_readable line")
    case False
    then show ?thesis by (simp add: exercise_step_raises)
  next
    case True
    from exercise_step_indent [OF Cons.prems(1) True] obtain st1 where
      s1: "exercise_step st line = Inr st1" "known_abbr (current_exercise st1)" by blast
    from True Cons.prems(2) have "\<not> list_all sets_readable lines" by simp
    from Cons.IH [OF s1(2) this] s1(1) show ?thesis by simp
  qed
qed

lemma scan_lines_append:
  "scan_lines st (seen @ rest) =
     (case scan_lines st seen of Inl e \<Rightarrow> Inl e | Inr st' \<Rightarrow> scan_lines st' rest)"
  by (induction seen arbitrary: st) (auto split: sum.splits)

lemma run_set_pattern_first_group:
  assumes "st \<in> set (run SET_REP_WEIGHT_PATTERN s (i0, Map.empty))"
  shows "\<exists>j p. snd st 1 = Some (i0, j) \<and> i0 < j \<and> j \<le> i0 + span (Cls isdecimal) s i0
           \<and> j \<le> p \<and> p \<le> j + span (Cls isspace) s j \<and> times_sign (s ! p)"
  using assms
  by (auto simp: SET_REP_WEIGHT_PATTERN_def greedy_bounds split: if_splits)

lemma long_sets_line_nth: "j < 4301 \<Longrightarrow> long_sets_line ! j = 57"
  by (simp add: long_sets_line_def nth_append)

lemma long_sets_line_span_digits: "span (Cls isdecimal) long_sets_line 0 = 4301"
proof -
  have "takeWhile (atom_ok (Cls isdecimal)) (replicate 4301 57 @ py ''x8x100'')
          = replicate 4301 57 @ takeWhile (atom_ok (Cls isdecimal)) (py ''x8x100'')"
    by (rule takeWhile_append2) (simp add: isdecimal_def in_ranges_def decimal_ranges_def)
  moreover have "takeWhile (atom_ok (Cls isdecimal)) (py ''x8x100'') = []"
    by (simp add: py_def isdecimal_def in_ranges_def decimal_ranges_def)
  ultimately show ?thesis
    by (simp add: span_def long_sets_line_def)
qed

lemma long_sets_line_span_space:
  assumes "j < 4301"
  shows "span (Cls isspace) long_sets_line j = 0"
proof -
  have d: "drop j long_sets_line = replicate (4301 - j) 57 @ py ''x8x100''"
    using assms by (simp add: long_sets_line_def)
  have "57 \<in> set (replicate (4301 - j) (57 :: nat))" using assms by simp
  moreover have "\<not> isspace 57" by (simp add: isspace_def in_ranges_def)
  ultimately have "takeWhile isspace (replicate (4301 - j) 57 @ py ''x8x100'')
      = takeWhile isspace (replicate (4301 - j) 57)"
    by (rule takeWhile_append1)
  moreover have "atom_ok (Cls isspace) = isspace" by (rule ext) simp
  ultimately show ?thesis using \<open>\<not> isspace 57\<close> by (simp add: span_def d)
qed

lemma long_sets_line_first_group:
  assumes "st \<in> set (run SET_REP_WEIGHT_PATTERN long_sets_line (0, Map.empty))"
  shows "snd st 1 = Some (0, 4301)"
proof -
  from run_set_pattern_first_group [OF assms] obtain j p where
    j: "snd st 1 = Some (0, j)" "j \<le> 0 + span (Cls isdecimal) long_sets_line 0"
      "j \<le> p" "p \<le> j + span (Cls isspace) long_sets_line j" "times_sign (long_sets_line ! p)"
    by blast
  have "\<not> j < 4301"
  proof
    assume l: "j < 4301"
    with j(3,4) have "p = j" by (simp add: long_sets_line_span_space)
    with j(5) l show False by (simp add: long_sets_line_nth times_sign_def)
  qed
  with j(2) have "j = 4301" by (simp add: long_sets_line_span_digits)
  with j(1) show ?thesis by simp
qed

lemma long_sets_line_matches:
  "run SET_REP_WEIGHT_PATTERN long_sets_line (0, Map.empty) \<noteq> []"
proof -
  let ?rest = "seqs [Star (Cls isspace), Atom (Cls times_sign),
           Star (Cls isspace), Grp 2 (Plus (Cls isdecimal)), Star (Cls isspace),
           Atom (Cls times_sign), Star (Cls isspace),
           Grp 3 (Seq (Plus (Cls isdecimal))
                      (Opt (Seq (Atom (Chr 46)) (Plus (Cls isdecimal)))))]"
  let ?st1 = "(4301 :: nat, [1 \<mapsto> (0 :: nat, 4301 :: nat)])"
  have "(4301, Map.empty) \<in> set (greedy 1 4301 (0, Map.empty))"
    by (simp add: greedy_mem)
  then have g: "?st1 \<in> set (run (Grp 1 (Plus (Cls isdecimal))) long_sets_line (0, Map.empty))"
    by (simp add: long_sets_line_span_digits image_iff del: One_nat_def) force
  have "run ?rest long_sets_line ?st1 \<noteq> []"
    by (simp add: long_sets_line_def py_def greedy_def span_def nth_append times_sign_def
        isspace_def in_ranges_def isdecimal_def)
  then obtain x where x: "x \<in> set (run ?rest long_sets_line ?st1)"
    by (meson hd_in_set)
  have e: "SET_REP_WEIGHT_PATTERN = Seq (Grp 1 (Plus (Cls isdecimal))) ?rest"
    by (simp add: SET_REP_WEIGHT_PATTERN_def)
  from g x have "x \<in> set (run SET_REP_WEIGHT_PATTERN long_sets_line (0, Map.empty))"
    unfolding e by (simp only: run.simps(6) set_concat set_map) blast
  then show ?thesis by (metis empty_iff empty_set)
qed

lemma long_sets_line_unreadable: "\<not> sets_readable long_sets_line"
proof -
  from long_sets_line_matches obtain st sts where
    r: "run SET_REP_WEIGHT_PATTERN long_sets_line (0, Map.empty) = st # sts"
    by (meson neq_Nil_conv)
  then have "st \<in> set (run SET_REP_WEIGHT_PATTERN long_sets_line (0, Map.empty))" by simp
  then have c: "snd st 1 = Some (0, 4301)" by (rule long_sets_line_first_group)
  let ?m = "\<lparr>m_start = 0, m_end = fst st, m_caps = snd st\<rparr>"
  from r have m: "match_at SET_REP_WEIGHT_PATTERN long_sets_line 0 = Some ?m"
    by (simp add: match_at_def)
  then have "?m \<in> set (finditer SET_REP_WEIGHT_PATTERN long_sets_line)"
    by (simp add: finditer_def finditer_from.simps [of _ _ 0])
  moreover from c have "length (m_group long_sets_line ?m 1) = 4301"
    by (simp add: m_group_def slice_def long_sets_line_def)
  ultimately have "\<exists>m \<in> set (finditer SET_REP_WEIGHT_PATTERN long_sets_line).
      \<not> length (m_group long_sets_line m 1) \<le> int_max_str_digits"
    by (intro bexI [of _ ?m]) (simp_all add: int_max_str_digits_def)
  then show ?thesis
    unfolding sets_readable_def list_all_iff by blast
qed

lemma long_sets_line_length: "int_max_str_digits < length long_sets_line"
  by (simp add: long_sets_line_def py_def int_max_str_digits_def)

lemma not_Inr_isl: "(\<nexists>y. x = Inr y) \<Longrightarrow> isl x"
  by (cases x) auto

lemmas training_eval = EXERCISE_PATTERNS_def abbr_pattern_def SET_REP_WEIGHT_PATTERN_def
  times_sign_def line_sets_def set_of_match_def decimal_value_def digit_value_ascii

lemma sample_lines_readable:
  "sets_readable bp_line" "sets_readable bp_sets_line" "sets_readable inner_bp_line"
  "sets_readable deep_sets_line" "sets_readable row_press_line" "sets_readable press_row_line"
  by (rule sets_readable_short,
      simp add: bp_line_def bp_sets_line_def inner_bp_line_def deep_sets_line_def
        row_press_line_def press_row_line_def py_def int_max_str_digits_def)+

lemma bp_line_abbr: "first_abbr EXERCISE_PATTERNS bp_line = Some ''Bp''"
  by (simp add: bp_line_def training_eval str_eval re_eval Let_def)

lemma bp_line_sets: "line_sets bp_line = []"
  by (simp add: bp_line_def training_eval str_eval re_eval Let_def)

lemma bp_line_indent: "leading_whitespace bp_line = 0"
  by (simp add: bp_line_def leading_whitespace_def str_eval)

lemma bp_sets_line_abbr: "first_abbr EXERCISE_PATTERNS bp_sets_line = None"
  by (simp add: bp_sets_line_def training_eval str_eval re_eval Let_def)

lemma bp_sets_line_sets: "line_sets bp_sets_line = [set_3x8x100]"
  by (simp add: bp_sets_line_def set_3x8x100_def training_eval str_eval re_eval Let_def)

lemma bp_sets_line_indent: "leading_whitespace bp_sets_line = 2"
  by (simp add: bp_sets_line_def leading_whitespace_def str_eval)

lemma bp_sets_line_strip: "strip bp_sets_line = py ''3x8x100''"
  by (simp add: bp_sets_line_def str_eval)

lemma bench_press_name: "map_of EXERCISE_PATTERNS ''Bp'' = Some ''Bench Press''"
  by (simp add: EXERCISE_PATTERNS_def)

lemma inner_bp_line_abbr: "first_abbr EXERCISE_PATTERNS inner_bp_line = Some ''Bp''"
  by (simp add: inner_bp_line_def training_eval str_eval re_eval Let_def)

lemma inner_bp_line_indent: "leading_whitespace inner_bp_line = 2"
  by (simp add: inner_bp_line_def leading_whitespace_def str_eval)

lemma deep_sets_line_abbr: "first_abbr EXERCISE_PATTERNS deep_sets_line = None"
  by (simp add: deep_sets_line_def training_eval str_eval re_eval Let_def)

lemma deep_sets_line_indent: "leading_whitespace deep_sets_line = 4"
  by (simp add: deep_sets_line_def leading_whitespace_def str_eval)

lemma scan_bp_line:
  "scan_lines initial_state [bp_line] =
     Inr \<lparr>exercises_dict = [], current_exercise = Some ''Bp'', previous_indent = 0\<rparr>"
  by (simp add: initial_state_def exercise_step_def extract_sets_line_sets Let_def
      sample_lines_readable indent_leading_whitespace bp_line_abbr bp_line_sets bp_line_indent)

lemma scan_bp_lines:
  "scan_lines initial_state [bp_line, bp_sets_line] =
     Inr \<lparr>exercises_dict = [(''Bp'', bp_exercise)], current_exercise = Some ''Bp'',
          previous_indent = 0\<rparr>"
  by (simp add: initial_state_def exercise_step_def extract_sets_line_sets Let_def
      sample_lines_readable indent_leading_whitespace bp_line_abbr bp_line_sets bp_line_indent
      bp_sets_line_abbr bp_sets_line_sets bp_sets_line_indent bp_sets_line_strip
      add_sets_def bench_press_name bp_exercise_def)

text \<open>
  C6, as stated, fails on the lines "Bp" and "  3x8x100". The second line matches no
  abbreviation, and its set goes to the exercise carried over from the first line: it
  continues the exercise context, and it begins with two blanks. \<open>previous_indent\<close> is
  still 0 after it.
\<close>

theorem previous_indent_after_set_line:
  "scan_lines initial_state [bp_line] =
     Inr \<lparr>exercises_dict = [], current_exercise = Some ''Bp'', previous_indent = 0\<rparr>
   \<and> scan_lines initial_state [bp_line, bp_sets_line] =
       Inr \<lparr>exercises_dict = [(''Bp'', bp_exercise)], current_exercise = Some ''Bp'',
            previous_indent = 0\<rparr>
   \<and> ex_sets bp_exercise = line_sets bp_sets_line
   \<and> leading_whitespace bp_sets_line = 2"
proof -
  have "ex_sets bp_exercise = line_sets bp_sets_line"
    by (simp add: bp_sets_line_sets bp_exercise_def)
  with scan_bp_line scan_bp_lines bp_sets_line_indent show ?thesis by blast
qed

text \<open>
  C6, amended. Whenever the scan of the lines read so far has reached a state,
  \<open>previous_indent\<close> is the number of leading whitespace characters of the most recent line
  on which an abbreviation of the table matched, and 0 while no line has matched; the scan
  of the whole text continues from that state. The scan reaches a state exactly when
  \<^verbatim>\<open>int()\<close> reads every set count and repetition count of those lines, as it does when no
  line has more than 4300 characters; otherwise \<^verbatim>\<open>_extract_sets\<close> raises
  \<^verbatim>\<open>ValueError\<close>.
\<close>

theorem previous_indent_last_match:
  "(\<forall>st. scan_lines initial_state seen = Inr st \<longrightarrow>
      previous_indent st = last_match_indent seen
      \<and> scan_lines initial_state (seen @ rest) = scan_lines st rest)
   \<and> ((\<exists>st. scan_lines initial_state seen = Inr st) \<longleftrightarrow> list_all sets_readable seen)
   \<and> (list_all (\<lambda>line. length line \<le> int_max_str_digits) seen \<longrightarrow>
        (\<exists>st. scan_lines initial_state seen = Inr st))"
proof -
  have k: "known_abbr (current_exercise initial_state)"
    by (simp add: initial_state_def known_abbr_def)
  have returns: "\<exists>st. scan_lines initial_state seen = Inr st
      \<and> previous_indent st = last_match_indent seen" if "list_all sets_readable seen"
    using scan_lines_indent [OF k that]
    by (auto simp: last_match_indent_def initial_state_def split: list.splits)
  have raises: "list_all sets_readable seen" if "scan_lines initial_state seen = Inr st" for st
    using scan_lines_raises [OF k, of seen] that by auto
  have 1: "previous_indent st = last_match_indent seen
      \<and> scan_lines initial_state (seen @ rest) = scan_lines st rest"
    if "scan_lines initial_state seen = Inr st" for st
    using returns [OF raises [OF that]] that by (auto simp: scan_lines_append)
  have 2: "(\<exists>st. scan_lines initial_state seen = Inr st) \<longleftrightarrow> list_all sets_readable seen"
    using returns raises by blast
  have "list_all sets_readable seen"
    if "list_all (\<lambda>line. length line \<le> int_max_str_digits) seen"
    using that by (auto simp: list_all_iff intro: sets_readable_short)
  with 1 2 show ?thesis by blast
qed

theorem previous_indent_last_match_witness:
  "(\<exists>st. scan_lines initial_state [inner_bp_line, deep_sets_line] = Inr st
      \<and> previous_indent st = 2)
   \<and> leading_whitespace inner_bp_line = 2
   \<and> leading_whitespace deep_sets_line = 4
   \<and> isl (scan_lines initial_state [inner_bp_line, long_sets_line])
   \<and> int_max_str_digits < length long_sets_line"
proof -
  let ?seen = "[inner_bp_line, deep_sets_line]"
  note t = previous_indent_last_match [of ?seen "[]"]
  have "list_all sets_readable ?seen"
    by (simp add: sample_lines_readable)
  with t obtain st where st: "scan_lines initial_state ?seen = Inr st" by blast
  with t have "previous_indent st = last_match_indent ?seen" by blast
  also have "last_match_indent ?seen = leading_whitespace inner_bp_line"
    by (simp add: last_match_indent_def inner_bp_line_abbr deep_sets_line_abbr)
  finally have "previous_indent st = 2" by (simp add: inner_bp_line_indent)
  with st have 1: "\<exists>st. scan_lines initial_state ?seen = Inr st \<and> previous_indent st = 2"
    by blast
  let ?long = "[inner_bp_line, long_sets_line]"
  note u = previous_indent_last_match [of ?long "[]"]
  have "\<not> list_all sets_readable ?long"
    by (simp add: long_sets_line_unreadable)
  with u have "\<nexists>st. scan_lines initial_state ?long = Inr st" by blast
  then have 2: "isl (scan_lines initial_state ?long)" by (rule not_Inr_isl)
  from 1 2 inner_bp_line_indent deep_sets_line_indent long_sets_line_length
  show ?thesis by blast
qed











lemma completed_loop_filter:
  "completed_loop text created_timestamp activities matches =
     activities @
     map (\<lambda>m. \<lparr>ca_timestamp = m_group text m 1, ca_activity = activity_line text m\<rparr>)
       (filter (\<lambda>m. m_group text m 1 \<noteq> replace 32 (py ''T'') (hd (split 46 created_timestamp)))
          matches)"
  by (induction matches arbitrary: activities) (simp_all add: Let_def)

lemma finditer_blank_text:
  "\<exists>m. finditer timestamp_pattern blank_text = [m]
       \<and> m_start m = 0 \<and> m_end m = 19 \<and> m_caps m 1 = Some (0, 19)"
  by (simp add: blank_text_def timestamp_pattern_def t_or_space_def str_eval re_eval Let_def)

lemma finditer_t_text:
  "\<exists>m. finditer timestamp_pattern t_text = [m]
       \<and> m_start m = 0 \<and> m_end m = 19 \<and> m_caps m 1 = Some (0, 19)"
  by (simp add: t_text_def timestamp_pattern_def t_or_space_def str_eval re_eval Let_def)

lemma blank_match_group:
  "m_caps m 1 = Some (0, 19) \<Longrightarrow> m_group blank_text m 1 = py ''2026-01-23 02:00:49''"
  by (simp add: blank_text_def m_group_def slice_def py_def)

lemma t_match_group:
  "m_caps m 1 = Some (0, 19) \<Longrightarrow> m_group t_text m 1 = py ''2026-01-23T02:00:49''"
  by (simp add: t_text_def m_group_def slice_def py_def)

lemma keep_created_normalized:
  "replace 32 (py ''T'') (hd (split 46 keep_created)) = py ''2026-01-23T02:00:49''"
  by (simp add: keep_created_def str_eval)

lemma blank_activity_line:
  "m_start m = 0 \<Longrightarrow> m_end m = 19 \<Longrightarrow> activity_line blank_text m = blank_text"
  by (simp add: blank_text_def activity_line_def rfind_def find_from_def str_eval)

lemma blank_differs: "py ''2026-01-23 02:00:49'' \<noteq> py ''2026-01-23T02:00:49''"
  by (simp add: py_def)

lemma keep_created_not_empty: "keep_created \<noteq> []"
  by (simp add: keep_created_def py_def)

text \<open>
  C5 at the failing input. The text embeds the creation instant with a blank before the
  time, as the creation timestamp itself has it. Compared as the claim says, the two are
  the same; the parser captures the match as a completed activity all the same. With
  \<^verbatim>\<open>T\<close> in the text the match is left out and the synthesized activity is returned.
\<close>

theorem completed_activities_blank_separator:
  "spec_normalize (py ''2026-01-23 02:00:49'') = spec_normalize keep_created
   \<and> extract_completed_activities blank_text keep_created =
       [\<lparr>ca_timestamp = py ''2026-01-23 02:00:49'', ca_activity = blank_text\<rparr>]
   \<and> extract_completed_activities t_text keep_created =
       [\<lparr>ca_timestamp = keep_created, ca_activity = py ''Workout logged''\<rparr>]"
proof -
  have 1: "spec_normalize (py ''2026-01-23 02:00:49'') = spec_normalize keep_created"
    by (simp add: spec_normalize_def keep_created_normalized) (simp add: str_eval)
  from finditer_blank_text obtain m where m: "finditer timestamp_pattern blank_text = [m]"
    "m_start m = 0" "m_end m = 19" "m_caps m 1 = Some (0, 19)" by blast
  have 2: "extract_completed_activities blank_text keep_created =
       [\<lparr>ca_timestamp = py ''2026-01-23 02:00:49'', ca_activity = blank_text\<rparr>]"
    using blank_differs
    by (simp add: extract_completed_activities_def completed_loop_filter m(1)
        blank_match_group [OF m(4), unfolded One_nat_def] keep_created_normalized
        blank_activity_line [OF m(2,3)])
  from finditer_t_text obtain m' where m': "finditer timestamp_pattern t_text = [m']"
    "m_caps m' 1 = Some (0, 19)" by blast
  have 3: "extract_completed_activities t_text keep_created =
       [\<lparr>ca_timestamp = keep_created, ca_activity = py ''Workout logged''\<rparr>]"
    by (simp add: extract_completed_activities_def completed_loop_filter m'(1)
        t_match_group [OF m'(2), unfolded One_nat_def] keep_created_normalized
        keep_created_not_empty)
  from 1 2 3 show ?thesis by blast
qed

theorem completed_activities_blank_separator_witness:
  "length (extract_completed_activities blank_text keep_created) = 1
   \<and> ca_activity (hd (extract_completed_activities blank_text keep_created)) = blank_text
   \<and> ca_activity (hd (extract_completed_activities t_text keep_created)) = py ''Workout logged''"
  using completed_activities_blank_separator by simp

lemma extract_hn_urls_repeat:
  "extract_hn_urls (py ''http://news.ycombinator.com/item?id=22222 https://news.ycombinator.com/item?id=11111 http://news.ycombinator.com/item?id=22222'')
     = [hn_link_http_22222, hn_link_11111, hn_link_http_22222]"
  by (simp add: extract_hn_urls_def hn_link_11111_def hn_link_http_22222_def HN_URL_PATTERN_def
      str_eval re_eval Let_def)

text \<open>
  C8. \<^verbatim>\<open>HackerNewsParser.parse\<close> returns a record whose \<^verbatim>\<open>hn_links\<close> are the links of all
  the matches that \<^verbatim>\<open>re.finditer\<close> finds for the Hacker News pattern in the title,
  followed by those of all the matches it finds in the text: one link for every match, in the
  order of the matches, a repeated address as often as it is matched. Each link holds the
  matched string and its group of digits. \<^verbatim>\<open>url\<close> and \<^verbatim>\<open>item_id\<close> are those of the first
  link of that list (empty strings when there is none), so a link in the title takes
  priority over every link in the text.
\<close>

theorem hackernews_parse_title_first:
  "\<exists>r. hackernews_parse (Dict n) = Inr r
     \<and> hn_links r =
         map (\<lambda>m. \<lparr>link_url = group0 (dict_get (n_title n) []) m,
                    link_item_id = m_group (dict_get (n_title n) []) m 1\<rparr>)
           (finditer HN_URL_PATTERN (dict_get (n_title n) []))
         @ map (\<lambda>m. \<lparr>link_url = group0 (dict_get (n_text n) []) m,
                      link_item_id = m_group (dict_get (n_text n) []) m 1\<rparr>)
             (finditer HN_URL_PATTERN (dict_get (n_text n) []))
     \<and> length (hn_links r) =
         length (finditer HN_URL_PATTERN (dict_get (n_title n) []))
         + length (finditer HN_URL_PATTERN (dict_get (n_text n) []))
     \<and> hn_links r = extract_hn_urls (dict_get (n_title n) []) @ extract_hn_urls (dict_get (n_text n) [])
     \<and> (hn_links r = [] \<longrightarrow> hn_url r = [] \<and> hn_item_id r = [])
     \<and> (hn_links r \<noteq> [] \<longrightarrow>
          hn_url r = link_url (hd (hn_links r)) \<and> hn_item_id r = link_item_id (hd (hn_links r)))
     \<and> (extract_hn_urls (dict_get (n_title n) []) \<noteq> [] \<longrightarrow>
          hn_url r = link_url (hd (extract_hn_urls (dict_get (n_title n) [])))
          \<and> hn_item_id r = link_item_id (hd (extract_hn_urls (dict_get (n_title n) []))))"
proof -
  let ?title = "dict_get (n_title n) []"
  let ?text = "dict_get (n_text n) []"
  obtain r where r: "hackernews_parse (Dict n) = Inr r"
    and l: "hn_links r = extract_hn_urls ?title @ extract_hn_urls ?text"
    and u: "hn_url r = (case hn_links r of [] \<Rightarrow> [] | k # _ \<Rightarrow> link_url k)"
    and i: "hn_item_id r = (case hn_links r of [] \<Rightarrow> [] | k # _ \<Rightarrow> link_item_id k)"
    by (simp add: hackernews_parse_def extract_hn_urls_from_title_and_body_def Let_def)
  from l have f: "hn_links r =
         map (\<lambda>m. \<lparr>link_url = group0 ?title m, link_item_id = m_group ?title m 1\<rparr>)
           (finditer HN_URL_PATTERN ?title)
         @ map (\<lambda>m. \<lparr>link_url = group0 ?text m, link_item_id = m_group ?text m 1\<rparr>)
             (finditer HN_URL_PATTERN ?text)"
    by (simp add: extract_hn_urls_def)
  then have n: "length (hn_links r) =
         length (finditer HN_URL_PATTERN ?title) + length (finditer HN_URL_PATTERN ?text)"
    by simp
  have e: "hn_links r = [] \<longrightarrow> hn_url r = [] \<and> hn_item_id r = []"
    using u i by simp
  have h: "hn_links r \<noteq> [] \<longrightarrow>
          hn_url r = link_url (hd (hn_links r)) \<and> hn_item_id r = link_item_id (hd (hn_links r))"
    using u i by (cases "hn_links r") simp_all
  have t: "extract_hn_urls ?title \<noteq> [] \<longrightarrow>
          hn_url r = link_url (hd (extract_hn_urls ?title))
          \<and> hn_item_id r = link_item_id (hd (extract_hn_urls ?title))"
    using u i l by (cases "extract_hn_urls ?title") simp_all
  from r f n l e h t show ?thesis by blast
qed

theorem hackernews_parse_title_first_witness:
  "(\<exists>r. hackernews_parse hn_note = Inr r \<and> hn_links r = [hn_link_11111, hn_link_22222]
      \<and> length (hn_links r) = 2
      \<and> hn_url r = py ''https://news.ycombinator.com/item?id=11111''
      \<and> hn_item_id r = py ''11111'')
   \<and> (\<exists>r. hackernews_parse (Dict hn_repeat_note) = Inr r
      \<and> hn_links r = [hn_link_11111, hn_link_http_22222, hn_link_11111, hn_link_http_22222]
      \<and> length (finditer HN_URL_PATTERN (dict_get (n_text hn_repeat_note) [])) = 3
      \<and> hn_item_id r = py ''11111'')"
proof -
  let ?n = "\<lparr>n_id = None,
           n_title = Some (py ''https://news.ycombinator.com/item?id=11111''),
           n_text = Some (py ''https://news.ycombinator.com/item?id=22222''),
           n_labels = None, n_timestamps = None\<rparr>"
  from hackernews_parse_title_first [of ?n] obtain r where
    r: "hackernews_parse (Dict ?n) = Inr r"
       "hn_links r = extract_hn_urls (dict_get (n_title ?n) []) @ extract_hn_urls (dict_get (n_text ?n) [])"
       "hn_links r \<noteq> [] \<longrightarrow>
          hn_url r = link_url (hd (hn_links r)) \<and> hn_item_id r = link_item_id (hd (hn_links r))"
    by blast
  from r(2) have l: "hn_links r = [hn_link_11111, hn_link_22222]"
    by (simp add: dict_get_def extract_hn_urls_11111 extract_hn_urls_22222)
  with r(3) have "hn_url r = py ''https://news.ycombinator.com/item?id=11111''"
    "hn_item_id r = py ''11111''"
    by (simp_all add: hn_link_11111_def)
  with r(1) l have 1: "\<exists>r. hackernews_parse hn_note = Inr r
      \<and> hn_links r = [hn_link_11111, hn_link_22222] \<and> length (hn_links r) = 2
      \<and> hn_url r = py ''https://news.ycombinator.com/item?id=11111''
      \<and> hn_item_id r = py ''11111''"
    by (simp add: hn_note_def)
  from hackernews_parse_title_first [of hn_repeat_note] obtain q where
    q: "hackernews_parse (Dict hn_repeat_note) = Inr q"
       "hn_links q = extract_hn_urls (dict_get (n_title hn_repeat_note) [])
          @ extract_hn_urls (dict_get (n_text hn_repeat_note) [])"
       "length (hn_links q) =
         length (finditer HN_URL_PATTERN (dict_get (n_title hn_repeat_note) []))
         + length (finditer HN_URL_PATTERN (dict_get (n_text hn_repeat_note) []))"
       "hn_links q \<noteq> [] \<longrightarrow>
          hn_url q = link_url (hd (hn_links q)) \<and> hn_item_id q = link_item_id (hd (hn_links q))"
    by blast
  from q(2) have lq: "hn_links q =
      [hn_link_11111, hn_link_http_22222, hn_link_11111, hn_link_http_22222]"
    by (simp add: hn_repeat_note_def dict_get_def extract_hn_urls_11111 extract_hn_urls_repeat)
  have "length (extract_hn_urls (dict_get (n_text hn_repeat_note) [])) = 3"
    by (simp add: hn_repeat_note_def dict_get_def extract_hn_urls_repeat)
  then have c: "length (finditer HN_URL_PATTERN (dict_get (n_text hn_repeat_note) [])) = 3"
    by (simp add: extract_hn_urls_def)
  from lq q(4) have "hn_item_id q = py ''11111''"
    by (simp add: hn_link_11111_def)
  with q(1) lq c have 2: "\<exists>r. hackernews_parse (Dict hn_repeat_note) = Inr r
      \<and> hn_links r = [hn_link_11111, hn_link_http_22222, hn_link_11111, hn_link_http_22222]
      \<and> length (finditer HN_URL_PATTERN (dict_get (n_text hn_repeat_note) [])) = 3
      \<and> hn_item_id r = py ''11111''"
    by blast
  from 1 2 show ?thesis by blast
qed

end
